theory Spec2Isabelle
  imports Main "HOL-Library.AList"
begin

section \<open>Values, C types and conversions\<close>

text \<open>
  The two headers \<open>bypass_fix.h\<close> and \<open>sovereign_shim.h\<close> consist of preprocessor
  directives and two inline functions. They are modelled by a small expression language
  (the token sequences that appear as replacement lists, function bodies and call sites),
  a preprocessor that walks the lines of a header, and an evaluator of expanded
  expressions over a process state.

  A C value is an integer (of whatever integer type), a pointer (an address, 0 being the
  null pointer) or the value of a \<open>void\<close> expression.
\<close>

datatype val = VInt int | VPtr nat | VVoid

text \<open>The types that occur in the headers' signatures; \<open>clockid_t\<close> is a typedef of
  \<open>int\<close> on Linux and Bionic.\<close>

datatype ctype = CInt | CUInt | CLong | CClockId | CPtr | CVoid

definition to_cint :: "int \<Rightarrow> int" where
  "to_cint x = (x + 2 ^ 31) mod 2 ^ 32 - 2 ^ 31"

definition to_cuint :: "int \<Rightarrow> int" where
  "to_cuint x = x mod 2 ^ 32"

definition to_clong :: "nat \<Rightarrow> int \<Rightarrow> int" where
  "to_clong bits x = (x + 2 ^ (bits - 1)) mod 2 ^ bits - 2 ^ (bits - 1)"

datatype fault =
    Arity string          \<comment> \<open>macro or function invoked with the wrong number of arguments\<close>
  | NotCallable string    \<comment> \<open>an object-like macro in callee position that is no identifier\<close>
  | EmptyExpansion string \<comment> \<open>a macro with empty replacement list used as an operand\<close>
  | Unbound string        \<comment> \<open>an identifier that names nothing in scope\<close>
  | IllTyped              \<comment> \<open>a value of the wrong kind for the type it is converted to\<close>
  | NoReturn              \<comment> \<open>a library call that never returns (blocks forever)\<close>
  | LibFault string       \<comment> \<open>any other failure raised inside a library call\<close>

text \<open>Conversion of a value to a parameter or return type, as at a call or a
  \<open>return\<close>. The width of \<open>long\<close> is the platform's.\<close>

fun convert :: "nat \<Rightarrow> ctype \<Rightarrow> val \<Rightarrow> fault + val" where
  "convert lb CInt (VInt i) = Inr (VInt (to_cint i))"
| "convert lb CClockId (VInt i) = Inr (VInt (to_cint i))"
| "convert lb CUInt (VInt i) = Inr (VInt (to_cuint i))"
| "convert lb CLong (VInt i) = Inr (VInt (to_clong lb i))"
| "convert lb CPtr (VPtr p) = Inr (VPtr p)"
| "convert lb CVoid v = Inr VVoid"
| "convert lb t v = Inl IllTyped"

section \<open>Expressions and macros\<close>

text \<open>
  \<open>Lit v\<close> is an operand whose value is \<open>v\<close> (an integer constant, or any already
  computed operand); \<open>AssignErrno e\<close> is \<open>errno = e\<close>; \<open>Comma a b\<close> is \<open>(a, b)\<close>;
  \<open>VoidCast e\<close> is \<open>(void)e\<close>; \<open>Call f args\<close> is \<open>f(args)\<close>. \<open>Param i\<close> stands for
  the \<open>i\<close>-th parameter inside a replacement list that is being expanded; it does not
  occur in source text.
\<close>

datatype expr =
    Lit val
  | Ident string
  | Param nat
  | AssignErrno expr
  | Comma expr expr
  | VoidCast expr
  | Call string "expr list"

abbreviation IntLit :: "int \<Rightarrow> expr" where
  "IntLit n \<equiv> Lit (VInt n)"

text \<open>\<open>NULL\<close>, the null pointer constant of \<open><stddef.h>\<close>.\<close>

abbreviation NULL :: expr where
  "NULL \<equiv> Lit (VPtr 0)"

text \<open>\<open>#define X\<close> is \<open>Flag\<close>, \<open>#define X body\<close> is \<open>ObjMacro\<close>,
  \<open>#define X(ps) body\<close> is \<open>FunMacro\<close>.\<close>

datatype macro = Flag | ObjMacro expr | FunMacro "string list" expr

type_synonym mtable = "(string \<times> macro) list"

fun idents :: "expr \<Rightarrow> string list"
  and idents_list :: "expr list \<Rightarrow> string list" where
  "idents (Lit v) = []"
| "idents (Ident x) = [x]"
| "idents (Param i) = []"
| "idents (AssignErrno e) = idents e"
| "idents (Comma a b) = idents a @ idents b"
| "idents (VoidCast e) = idents e"
| "idents (Call f as) = idents_list as"
| "idents_list [] = []"
| "idents_list (a # as) = idents a @ idents_list as"

fun index_of :: "string \<Rightarrow> string list \<Rightarrow> nat option" where
  "index_of x [] = None"
| "index_of x (p # ps) =
     (if x = p then Some 0 else map_option Suc (index_of x ps))"

text \<open>Inside a replacement list every occurrence of a parameter name is the parameter.\<close>

fun mark :: "string list \<Rightarrow> expr \<Rightarrow> expr"
  and mark_list :: "string list \<Rightarrow> expr list \<Rightarrow> expr list" where
  "mark ps (Lit v) = Lit v"
| "mark ps (Ident x) = (case index_of x ps of Some i \<Rightarrow> Param i | None \<Rightarrow> Ident x)"
| "mark ps (Param i) = Param i"
| "mark ps (AssignErrno e) = AssignErrno (mark ps e)"
| "mark ps (Comma a b) = Comma (mark ps a) (mark ps b)"
| "mark ps (VoidCast e) = VoidCast (mark ps e)"
| "mark ps (Call f as) = Call f (mark_list ps as)"
| "mark_list ps [] = []"
| "mark_list ps (a # as) = mark ps a # mark_list ps as"

fun params_used :: "expr \<Rightarrow> nat list"
  and params_used_list :: "expr list \<Rightarrow> nat list" where
  "params_used (Lit v) = []"
| "params_used (Ident x) = []"
| "params_used (Param i) = [i]"
| "params_used (AssignErrno e) = params_used e"
| "params_used (Comma a b) = params_used a @ params_used b"
| "params_used (VoidCast e) = params_used e"
| "params_used (Call f as) = params_used_list as"
| "params_used_list [] = []"
| "params_used_list (a # as) = params_used a @ params_used_list as"

fun subst :: "(nat \<times> expr) list \<Rightarrow> expr \<Rightarrow> expr"
  and subst_list :: "(nat \<times> expr) list \<Rightarrow> expr list \<Rightarrow> expr list" where
  "subst bs (Lit v) = Lit v"
| "subst bs (Ident x) = Ident x"
| "subst bs (Param i) = (case map_of bs i of Some a \<Rightarrow> a | None \<Rightarrow> Param i)"
| "subst bs (AssignErrno e) = AssignErrno (subst bs e)"
| "subst bs (Comma a b) = Comma (subst bs a) (subst bs b)"
| "subst bs (VoidCast e) = VoidCast (subst bs e)"
| "subst bs (Call f as) = Call f (subst_list bs as)"
| "subst_list bs [] = []"
| "subst_list bs (a # as) = subst bs a # subst_list bs as"

lemma delete_shorter:
  "map_of M x = Some m \<Longrightarrow> length (AList.delete x M) < length M"
proof (induction M)
  case Nil
  then show ?case by simp
next
  case (Cons p M)
  have le: "length (AList.delete x M) \<le> length M"
    by (simp add: AList.delete_eq)
  show ?case
  proof (cases "fst p = x")
    case True
    then show ?thesis using le by (cases p) simp
  next
    case False
    then show ?thesis using Cons by (cases p) (simp split: if_splits)
  qed
qed

text \<open>
  Macro expansion with rescanning. An invocation of a function-like macro expands the
  arguments of the parameters that occur in the replacement list (an argument whose
  parameter does not occur is dropped unexpanded), rescans the replacement list with the
  macro's own name disabled, and puts the expanded arguments in place of the parameters.
  An object-like macro is replaced by its rescanned replacement list. A function-like
  macro name that is not followed by an argument list is left alone.
\<close>

function expand :: "mtable \<Rightarrow> expr \<Rightarrow> fault + expr"
  and expand_list :: "mtable \<Rightarrow> expr list \<Rightarrow> fault + expr list"
  and expand_bind :: "mtable \<Rightarrow> nat list \<Rightarrow> nat \<Rightarrow> expr list \<Rightarrow> fault + (nat \<times> expr) list"
where
  "expand M (Lit v) = Inr (Lit v)"
| "expand M (Param i) = Inr (Param i)"
| "expand M (Ident x) =
     (case map_of M x of
        None \<Rightarrow> Inr (Ident x)
      | Some Flag \<Rightarrow> Inl (EmptyExpansion x)
      | Some (ObjMacro b) \<Rightarrow> expand (AList.delete x M) b
      | Some (FunMacro ps b) \<Rightarrow> Inr (Ident x))"
| "expand M (AssignErrno e) =
     (case expand M e of Inl err \<Rightarrow> Inl err | Inr e' \<Rightarrow> Inr (AssignErrno e'))"
| "expand M (Comma a b) =
     (case expand M a of
        Inl err \<Rightarrow> Inl err
      | Inr a' \<Rightarrow> (case expand M b of Inl err \<Rightarrow> Inl err | Inr b' \<Rightarrow> Inr (Comma a' b')))"
| "expand M (VoidCast e) =
     (case expand M e of Inl err \<Rightarrow> Inl err | Inr e' \<Rightarrow> Inr (VoidCast e'))"
| "expand M (Call f as) =
     (case map_of M f of
        None \<Rightarrow>
          (case expand_list M as of Inl err \<Rightarrow> Inl err | Inr as' \<Rightarrow> Inr (Call f as'))
      | Some Flag \<Rightarrow> Inl (EmptyExpansion f)
      | Some (ObjMacro b) \<Rightarrow>
          (case b of
             Ident g \<Rightarrow> expand (AList.delete f M) (Call g as)
           | _ \<Rightarrow> Inl (NotCallable f))
      | Some (FunMacro ps b) \<Rightarrow>
          (if length as \<noteq> length ps then Inl (Arity f)
           else
             (case expand_bind M (params_used (mark ps b)) 0 as of
                Inl err \<Rightarrow> Inl err
              | Inr bs \<Rightarrow>
                  (case expand (AList.delete f M) (mark ps b) of
                     Inl err \<Rightarrow> Inl err
                   | Inr b' \<Rightarrow> Inr (subst bs b')))))"
| "expand_list M [] = Inr []"
| "expand_list M (a # as) =
     (case expand M a of
        Inl err \<Rightarrow> Inl err
      | Inr a' \<Rightarrow> (case expand_list M as of Inl err \<Rightarrow> Inl err | Inr as' \<Rightarrow> Inr (a' # as')))"
| "expand_bind M used i [] = Inr []"
| "expand_bind M used i (a # as) =
     (if i \<in> set used then
        (case expand M a of
           Inl err \<Rightarrow> Inl err
         | Inr a' \<Rightarrow>
             (case expand_bind M used (Suc i) as of
                Inl err \<Rightarrow> Inl err
              | Inr bs \<Rightarrow> Inr ((i, a') # bs)))
      else expand_bind M used (Suc i) as)"
  by pat_completeness auto
termination
  by (relation "inv_image (less_than <*lex*> less_than)
        (\<lambda>x. case x of
               Inl (M, e) \<Rightarrow> (length M, size e)
             | Inr (Inl (M, es)) \<Rightarrow> (length M, size_list size es)
             | Inr (Inr (M, used, i, es)) \<Rightarrow> (length M, size_list size es))")
     (auto simp: delete_shorter)

section \<open>The platform and the process state\<close>

text \<open>
  The system headers and the C library are not part of the repository. What the two
  headers take from them is a parameter of the model: the value of \<open>ENOSYS\<close> from
  \<open><errno.h>\<close>, the value of \<open>SYS_close_range\<close> from \<open><sys/syscall.h>\<close> where that
  header defines it, the width of \<open>long\<close>, and the behaviour of the library functions
  (\<open>sem_timedwait\<close>, \<open>syscall\<close>, and whatever a call site calls). A library function
  reads and writes the thread's \<open>errno\<close> and the world outside the program (the kernel's
  descriptor table, semaphores, memory); \<open>NoReturn\<close> is a call that blocks forever.
\<close>

record 'w platform =
  enosys :: int
  sys_close_range :: "int option"
  long_bits :: nat
  prim :: "string \<Rightarrow> val list \<Rightarrow> int \<times> 'w \<Rightarrow> fault + val \<times> int \<times> 'w"

text \<open>The process state: the thread-local error indicator, the outside world, and the
  log of the library calls made so far, each with its argument values.\<close>

record 'w pstate =
  errno :: int
  world :: 'w
  trace :: "(string \<times> val list) list"

text \<open>The declared return types of the two library functions the headers call:
  \<open>int sem_timedwait(sem_t *, const struct timespec *)\<close> and
  \<open>long syscall(long, ...)\<close>.\<close>

definition lib_ret :: "string \<Rightarrow> ctype option" where
  "lib_ret f =
     (if f = ''sem_timedwait'' then Some CInt
      else if f = ''syscall'' then Some CLong
      else None)"

definition lib_call ::
  "'w platform \<Rightarrow> string \<Rightarrow> val list \<Rightarrow> 'w pstate \<Rightarrow> fault + val \<times> 'w pstate" where
  "lib_call P f vs s =
     (case prim P f vs (errno s, world s) of
        Inl err \<Rightarrow> Inl err
      | Inr (v, en, w) \<Rightarrow>
          (let s' = s\<lparr>errno := en, world := w, trace := trace s @ [(f, vs)]\<rparr>
           in case lib_ret f of
                None \<Rightarrow> Inr (v, s')
              | Some t \<Rightarrow>
                  (case convert (long_bits P) t v of
                     Inl err \<Rightarrow> Inl err
                   | Inr v' \<Rightarrow> Inr (v', s'))))"

section \<open>Function definitions and evaluation\<close>

record fundef =
  ret :: ctype
  fname :: string
  params :: "(ctype \<times> string) list"
  body :: expr

type_synonym ftable = "(string \<times> fundef) list"

text \<open>The function table lists the most recent definition first. A body sees the
  functions defined before it.\<close>

fun find_fun :: "string \<Rightarrow> ftable \<Rightarrow> (fundef \<times> ftable) option" where
  "find_fun f [] = None"
| "find_fun f ((n, d) # F) = (if n = f then Some (d, F) else find_fun f F)"

lemma find_fun_shorter: "find_fun f F = Some (d, F') \<Longrightarrow> length F' < length F"
  by (induction F) (auto split: if_splits)

fun convert_all :: "nat \<Rightarrow> ctype list \<Rightarrow> val list \<Rightarrow> fault + val list" where
  "convert_all lb [] [] = Inr []"
| "convert_all lb (t # ts) (v # vs) =
     (case convert lb t v of
        Inl err \<Rightarrow> Inl err
      | Inr v' \<Rightarrow> (case convert_all lb ts vs of Inl err \<Rightarrow> Inl err | Inr vs' \<Rightarrow> Inr (v' # vs')))"
| "convert_all lb ts vs = Inl (Arity [])"

text \<open>
  Evaluation of an expanded expression. Arguments are evaluated from left to right. A call
  of a function defined in the translation unit converts the arguments to the parameter
  types, evaluates the body with the parameters bound, and converts the result to the
  return type; any other call is a library call.
\<close>

function eval ::
    "'w platform \<Rightarrow> ftable \<Rightarrow> (string \<Rightarrow> val option) \<Rightarrow> expr \<Rightarrow> 'w pstate
       \<Rightarrow> fault + val \<times> 'w pstate"
  and eval_args ::
    "'w platform \<Rightarrow> ftable \<Rightarrow> (string \<Rightarrow> val option) \<Rightarrow> expr list \<Rightarrow> 'w pstate
       \<Rightarrow> fault + val list \<times> 'w pstate"
where
  "eval P F env (Lit v) s = Inr (v, s)"
| "eval P F env (Ident x) s =
     (case env x of None \<Rightarrow> Inl (Unbound x) | Some v \<Rightarrow> Inr (v, s))"
| "eval P F env (Param i) s = Inl (Unbound [])"
| "eval P F env (AssignErrno e) s =
     (case eval P F env e s of
        Inl err \<Rightarrow> Inl err
      | Inr (v, s1) \<Rightarrow>
          (case v of
             VInt i \<Rightarrow> Inr (VInt (to_cint i), s1\<lparr>errno := to_cint i\<rparr>)
           | _ \<Rightarrow> Inl IllTyped))"
| "eval P F env (Comma a b) s =
     (case eval P F env a s of
        Inl err \<Rightarrow> Inl err
      | Inr (v, s1) \<Rightarrow> eval P F env b s1)"
| "eval P F env (VoidCast e) s =
     (case eval P F env e s of
        Inl err \<Rightarrow> Inl err
      | Inr (v, s1) \<Rightarrow> Inr (VVoid, s1))"
| "eval P F env (Call f as) s =
     (case find_fun f F of
        None \<Rightarrow>
          (case eval_args P F env as s of
             Inl err \<Rightarrow> Inl err
           | Inr (vs, s1) \<Rightarrow> lib_call P f vs s1)
      | Some (d, F') \<Rightarrow>
          (if length as \<noteq> length (params d) then Inl (Arity f)
           else
             (case eval_args P F env as s of
                Inl err \<Rightarrow> Inl err
              | Inr (vs, s1) \<Rightarrow>
                  (case convert_all (long_bits P) (map fst (params d)) vs of
                     Inl err \<Rightarrow> Inl err
                   | Inr vs' \<Rightarrow>
                       (case eval P F' (map_of (zip (map snd (params d)) vs')) (body d) s1 of
                          Inl err \<Rightarrow> Inl err
                        | Inr (v, s2) \<Rightarrow>
                            (case convert (long_bits P) (ret d) v of
                               Inl err \<Rightarrow> Inl err
                             | Inr v' \<Rightarrow> Inr (v', s2)))))))"
| "eval_args P F env [] s = Inr ([], s)"
| "eval_args P F env (a # as) s =
     (case eval P F env a s of
        Inl err \<Rightarrow> Inl err
      | Inr (v, s1) \<Rightarrow>
          (case eval_args P F env as s1 of
             Inl err \<Rightarrow> Inl err
           | Inr (vs, s2) \<Rightarrow> Inr (v # vs, s2)))"
  by pat_completeness auto
termination
  by (relation "inv_image (less_than <*lex*> less_than)
        (\<lambda>x. case x of
               Inl (P, F, env, e, s) \<Rightarrow> (length F, size e)
             | Inr (P, F, env, es, s) \<Rightarrow> (length F, size_list size es))")
     (auto simp: find_fun_shorter)

section \<open>The preprocessor over a translation unit\<close>

datatype strategy = AsMacro | AsFunction

datatype line =
    Include_sys string
  | Define string macro
  | Ifndef string "line list"
  | FunDef fundef

text \<open>
  The state of a translation unit while it is preprocessed: the macros in force, the
  functions defined, the log of every definition the active text contains (name and
  strategy, in order), and the names at which a definition clashed.
\<close>

record tu_state =
  macros :: mtable
  funs :: ftable
  defs :: "(string \<times> strategy) list"
  conflicts :: "string list"

definition tu0 :: tu_state where
  "tu0 = \<lparr>macros = [], funs = [], defs = [], conflicts = []\<rparr>"

text \<open>The macros a system header contributes on platform \<open>P\<close>.\<close>

definition sys_macros :: "'w platform \<Rightarrow> string \<Rightarrow> mtable" where
  "sys_macros P h =
     (if h = ''errno.h'' then [(''ENOSYS'', ObjMacro (IntLit (enosys P)))]
      else if h = ''sys/syscall.h'' then
        (case sys_close_range P of
           None \<Rightarrow> []
         | Some n \<Rightarrow> [(''SYS_close_range'', ObjMacro (IntLit n))])
      else [])"

text \<open>\<open>#define\<close>: a redefinition with the same replacement list changes nothing; one
  with a different replacement list is diagnosed and the new definition takes over.\<close>

definition define_macro :: "string \<Rightarrow> macro \<Rightarrow> tu_state \<Rightarrow> tu_state" where
  "define_macro n m st =
     (case map_of (macros st) n of
        None \<Rightarrow> st\<lparr>macros := (n, m) # macros st\<rparr>
      | Some m' \<Rightarrow>
          (if m' = m then st
           else st\<lparr>macros := AList.update n m (macros st),
                   conflicts := conflicts st @ [n]\<rparr>))"

fun define_all :: "mtable \<Rightarrow> tu_state \<Rightarrow> tu_state" where
  "define_all [] st = st"
| "define_all ((n, m) # ms) st = define_all ms (define_macro n m st)"

text \<open>
  The text of a function definition is macro-expanded like any other text. When the
  function's name is a macro at that point (an object-like macro replaces it, a
  function-like macro is invoked by the parameter list that follows it), or a parameter
  name is an object-like macro, the definition is garbled and defines nothing.
\<close>

definition is_object_like :: "mtable \<Rightarrow> string \<Rightarrow> bool" where
  "is_object_like M x =
     (case map_of M x of None \<Rightarrow> False | Some (FunMacro ps b) \<Rightarrow> False | Some m \<Rightarrow> True)"

definition clobbered :: "mtable \<Rightarrow> fundef \<Rightarrow> bool" where
  "clobbered M d =
     (map_of M (fname d) \<noteq> None \<or> list_ex (is_object_like M) (map snd (params d)))"

definition define_fun :: "fundef \<Rightarrow> tu_state \<Rightarrow> tu_state" where
  "define_fun d st =
     (let st1 = st\<lparr>defs := defs st @ [(fname d, AsFunction)]\<rparr>
      in if clobbered (macros st) d \<or> map_of (funs st) (fname d) \<noteq> None
         then st1\<lparr>conflicts := conflicts st @ [fname d]\<rparr>
         else
           (case expand (macros st) (body d) of
              Inl err \<Rightarrow> st1\<lparr>conflicts := conflicts st @ [fname d]\<rparr>
            | Inr b \<Rightarrow> st1\<lparr>funs := (fname d, d\<lparr>body := b\<rparr>) # funs st\<rparr>))"

fun pp_line :: "'w platform \<Rightarrow> line \<Rightarrow> tu_state \<Rightarrow> tu_state"
  and pp_lines :: "'w platform \<Rightarrow> line list \<Rightarrow> tu_state \<Rightarrow> tu_state" where
  "pp_line P (Include_sys h) st = define_all (sys_macros P h) st"
| "pp_line P (Define n m) st = define_macro n m (st\<lparr>defs := defs st @ [(n, AsMacro)]\<rparr>)"
| "pp_line P (Ifndef g ls) st =
     (if map_of (macros st) g = None then pp_lines P ls st else st)"
| "pp_line P (FunDef d) st = define_fun d st"
| "pp_lines P [] st = st"
| "pp_lines P (l # ls) st = pp_lines P ls (pp_line P l st)"

section \<open>The two headers\<close>

text \<open>\<open>bypass_fix.h\<close>, line by line: lines 2 to 21 inside the first guard, lines 25
  to 27 inside the second. The replacement list \<open>(errno = ENOSYS, -1)\<close> is a
  comma expression whose right operand is the constant \<open>-1\<close>.\<close>

definition always_fail :: expr where
  "always_fail = Comma (AssignErrno (Ident ''ENOSYS'')) (IntLit (- 1))"

definition bypass_body :: "line list" where
  "bypass_body =
     [Define ''REECH_BYPASS_H'' Flag,
      Include_sys ''errno.h'',
      Include_sys ''sys/types.h'',
      Include_sys ''pwd.h'',
      Define ''close_range'' (FunMacro [''a'', ''b'', ''c''] always_fail),
      Define ''copy_file_range''
        (FunMacro [''a'', ''b'', ''c'', ''d'', ''e'', ''f''] always_fail),
      Define ''preadv2'' (FunMacro [''a'', ''b'', ''c'', ''d'', ''e''] always_fail),
      Define ''pwritev2'' (FunMacro [''a'', ''b'', ''c'', ''d'', ''e''] always_fail),
      Define ''setpwent'' (FunMacro [] (VoidCast (IntLit 0))),
      Define ''endpwent'' (FunMacro [] (VoidCast (IntLit 0))),
      Define ''getpwent'' (FunMacro [] NULL),
      Define ''getloadavg'' (FunMacro [''a'', ''b''] always_fail),
      Define ''fexecve'' (FunMacro [''a'', ''b'', ''c''] always_fail),
      Define ''sem_clockwait''
        (FunMacro [''sem'', ''clock'', ''timeout'']
           (Call ''sem_timedwait'' [Ident ''sem'', Ident ''timeout'']))]"

definition ffi_body :: "line list" where
  "ffi_body = [Define ''FFI_BYPASS'' Flag, Include_sys ''sys/mman.h'']"

definition bypass_fix_h :: "line list" where
  "bypass_fix_h =
     [Ifndef ''REECH_BYPASS_H'' bypass_body,
      Ifndef ''FFI_BYPASS'' ffi_body]"

text \<open>\<open>sovereign_shim.h\<close>, line by line: the two functions, then lines 2 to 18
  inside the guard.\<close>

definition shim_sem_clockwait :: fundef where
  "shim_sem_clockwait =
     \<lparr>ret = CInt, fname = ''sem_clockwait'',
      params = [(CPtr, ''sem''), (CClockId, ''clockid''), (CPtr, ''abs_timeout'')],
      body = Call ''sem_timedwait'' [Ident ''sem'', Ident ''abs_timeout'']\<rparr>"

definition shim_close_range :: fundef where
  "shim_close_range =
     \<lparr>ret = CInt, fname = ''close_range'',
      params = [(CUInt, ''first''), (CUInt, ''last''), (CUInt, ''flags'')],
      body = Call ''syscall''
               [Ident ''SYS_close_range'', Ident ''first'', Ident ''last'', Ident ''flags'']\<rparr>"

definition shim_body :: "line list" where
  "shim_body =
     [Define ''SOVEREIGN_SHIM_H'' Flag,
      Include_sys ''time.h'',
      Include_sys ''semaphore.h'',
      Include_sys ''errno.h'',
      Include_sys ''unistd.h'',
      Include_sys ''sys/syscall.h'',
      FunDef shim_sem_clockwait,
      Ifndef ''SYS_close_range''
        [Define ''SYS_close_range'' (ObjMacro (IntLit 436))],
      FunDef shim_close_range]"

definition sovereign_shim_h :: "line list" where
  "sovereign_shim_h = [Ifndef ''SOVEREIGN_SHIM_H'' shim_body]"

section \<open>Translation units and running a call site\<close>

datatype hdr = Bypass | Shim

fun lines_of :: "hdr \<Rightarrow> line list" where
  "lines_of Bypass = bypass_fix_h"
| "lines_of Shim = sovereign_shim_h"

definition include_hdr :: "'w platform \<Rightarrow> hdr \<Rightarrow> tu_state \<Rightarrow> tu_state" where
  "include_hdr P h st = pp_lines P (lines_of h) st"

text \<open>A translation unit includes the listed headers, in order, each unguarded.\<close>

fun include_all :: "'w platform \<Rightarrow> hdr list \<Rightarrow> tu_state \<Rightarrow> tu_state" where
  "include_all P [] st = st"
| "include_all P (h # hs) st = include_all P hs (include_hdr P h st)"

definition preprocess :: "'w platform \<Rightarrow> hdr list \<Rightarrow> tu_state" where
  "preprocess P hs = include_all P hs tu0"

text \<open>Running the expression \<open>e\<close> written after the includes \<open>hs\<close>: it is expanded with
  the macros then in force and evaluated with the functions then defined.\<close>

definition run ::
  "'w platform \<Rightarrow> hdr list \<Rightarrow> (string \<Rightarrow> val option) \<Rightarrow> expr \<Rightarrow> 'w pstate
     \<Rightarrow> fault + val \<times> 'w pstate" where
  "run P hs env e s =
     (case expand (macros (preprocess P hs)) e of
        Inl err \<Rightarrow> Inl err
      | Inr e' \<Rightarrow> eval P (funs (preprocess P hs)) env e' s)"

text \<open>Running several call sites one after the other.\<close>

fun run_seq ::
  "'w platform \<Rightarrow> hdr list \<Rightarrow> (string \<Rightarrow> val option) \<Rightarrow> expr list \<Rightarrow> 'w pstate
     \<Rightarrow> fault + val list \<times> 'w pstate" where
  "run_seq P hs env [] s = Inr ([], s)"
| "run_seq P hs env (e # es) s =
     (case run P hs env e s of
        Inl err \<Rightarrow> Inl err
      | Inr (v, s1) \<Rightarrow>
          (case run_seq P hs env es s1 of
             Inl err \<Rightarrow> Inl err
           | Inr (vs, s2) \<Rightarrow> Inr (v # vs, s2)))"

section \<open>What the headers leave behind\<close>

text \<open>The macro table after \<open>bypass_fix.h\<close> alone, most recent definition first.\<close>

definition bypass_macros :: "'w platform \<Rightarrow> mtable" where
  "bypass_macros P =
     [(''FFI_BYPASS'', Flag),
      (''sem_clockwait'',
       FunMacro [''sem'', ''clock'', ''timeout'']
         (Call ''sem_timedwait'' [Ident ''sem'', Ident ''timeout''])),
      (''fexecve'', FunMacro [''a'', ''b'', ''c''] always_fail),
      (''getloadavg'', FunMacro [''a'', ''b''] always_fail),
      (''getpwent'', FunMacro [] NULL),
      (''endpwent'', FunMacro [] (VoidCast (IntLit 0))),
      (''setpwent'', FunMacro [] (VoidCast (IntLit 0))),
      (''pwritev2'', FunMacro [''a'', ''b'', ''c'', ''d'', ''e''] always_fail),
      (''preadv2'', FunMacro [''a'', ''b'', ''c'', ''d'', ''e''] always_fail),
      (''copy_file_range'',
       FunMacro [''a'', ''b'', ''c'', ''d'', ''e'', ''f''] always_fail),
      (''close_range'', FunMacro [''a'', ''b'', ''c''] always_fail),
      (''ENOSYS'', ObjMacro (IntLit (enosys P))),
      (''REECH_BYPASS_H'', Flag)]"

text \<open>The system-call number that lines 13 to 15 of \<open>sovereign_shim.h\<close> leave in
  force, and the macro and function tables after that header alone.\<close>

definition shim_syscall_nr :: "'w platform \<Rightarrow> int" where
  "shim_syscall_nr P = (case sys_close_range P of None \<Rightarrow> 436 | Some n \<Rightarrow> n)"

definition shim_macros :: "'w platform \<Rightarrow> mtable" where
  "shim_macros P =
     [(''SYS_close_range'', ObjMacro (IntLit (shim_syscall_nr P))),
      (''ENOSYS'', ObjMacro (IntLit (enosys P))),
      (''SOVEREIGN_SHIM_H'', Flag)]"

definition shim_funs :: "'w platform \<Rightarrow> ftable" where
  "shim_funs P =
     [(''close_range'',
       shim_close_range\<lparr>body := Call ''syscall''
          [IntLit (shim_syscall_nr P), Ident ''first'', Ident ''last'', Ident ''flags'']\<rparr>),
      (''sem_clockwait'', shim_sem_clockwait)]"

text \<open>The system headers a header includes, and whether one of them defines a name.\<close>

fun includes_of :: "line \<Rightarrow> string list"
  and includes_of_lines :: "line list \<Rightarrow> string list" where
  "includes_of (Include_sys h) = [h]"
| "includes_of (Define n m) = []"
| "includes_of (Ifndef g ls) = includes_of_lines ls"
| "includes_of (FunDef d) = []"
| "includes_of_lines [] = []"
| "includes_of_lines (l # ls) = includes_of l @ includes_of_lines ls"

definition platform_defines :: "'w platform \<Rightarrow> string list \<Rightarrow> string \<Rightarrow> bool" where
  "platform_defines P hs x = list_ex (\<lambda>h. map_of (sys_macros P h) x \<noteq> None) hs"

text \<open>The values of type \<open>int\<close>, and the outcomes of a call that a function returning
  \<open>int\<close> can hand on unchanged: a fault, or a value of type \<open>int\<close>.\<close>

definition is_cint :: "int \<Rightarrow> bool" where
  "is_cint r = (- (2 ^ 31) \<le> r \<and> r < 2 ^ 31)"

definition fits_int :: "fault + val \<times> 'w pstate \<Rightarrow> bool" where
  "fits_int R =
     (case R of
        Inl err \<Rightarrow> True
      | Inr (v, s) \<Rightarrow> (case v of VInt r \<Rightarrow> is_cint r | _ \<Rightarrow> False))"

text \<open>Whether a name is a macro in a translation-unit state, and the include guard of a
  top-level line: the line is \<open>#ifndef G\<close> whose first inner line is \<open>#define G\<close>.\<close>

definition is_defined :: "string \<Rightarrow> tu_state \<Rightarrow> bool" where
  "is_defined x st = (map_of (macros st) x \<noteq> None)"

fun guard_of :: "line \<Rightarrow> string option" where
  "guard_of (Ifndef g (Define g' Flag # ls)) = (if g = g' then Some g else None)"
| "guard_of l = None"

text \<open>The always-fail substitutions of a header: the function-like macros whose
  replacement list is \<open>(errno = ENOSYS, -1)\<close>, each with its number of parameters.\<close>

fun stubs_of :: "line \<Rightarrow> (string \<times> nat) list"
  and stubs_of_lines :: "line list \<Rightarrow> (string \<times> nat) list" where
  "stubs_of (Include_sys h) = []"
| "stubs_of (Define n m) =
     (case m of
        FunMacro ps b \<Rightarrow> (if b = always_fail then [(n, length ps)] else [])
      | _ \<Rightarrow> [])"
| "stubs_of (Ifndef g ls) = stubs_of_lines ls"
| "stubs_of (FunDef d) = []"
| "stubs_of_lines [] = []"
| "stubs_of_lines (l # ls) = stubs_of l @ stubs_of_lines ls"

definition always_fail_stubs :: "(string \<times> nat) list" where
  "always_fail_stubs = stubs_of_lines bypass_fix_h"

text \<open>What a password-database substitution yields: \<open>getpwent()\<close> the null pointer,
  \<open>setpwent()\<close> and \<open>endpwent()\<close> nothing.\<close>

definition pw_result :: "expr \<Rightarrow> val" where
  "pw_result e = (if e = Call ''getpwent'' [] then VPtr 0 else VVoid)"

text \<open>The parameters of a function-like macro that its replacement list never names.\<close>

fun unused_params :: "macro \<Rightarrow> string list" where
  "unused_params (FunMacro ps b) = filter (\<lambda>p. p \<notin> set (idents b)) ps"
| "unused_params m = []"

text \<open>How often, and by which strategy, the active text of a translation unit defines
  a name.\<close>

definition def_count :: "string \<Rightarrow> tu_state \<Rightarrow> nat" where
  "def_count n st = length (filter (\<lambda>d. fst d = n) (defs st))"

definition strategies :: "string \<Rightarrow> tu_state \<Rightarrow> strategy list" where
  "strategies n st = map snd (filter (\<lambda>d. fst d = n) (defs st))"

text \<open>The macro names a line can define.\<close>

fun names_defined :: "'w platform \<Rightarrow> line \<Rightarrow> string list"
  and names_defined_lines :: "'w platform \<Rightarrow> line list \<Rightarrow> string list" where
  "names_defined P (Include_sys h) = map fst (sys_macros P h)"
| "names_defined P (Define n m) = [n]"
| "names_defined P (Ifndef g ls) = names_defined_lines P ls"
| "names_defined P (FunDef d) = []"
| "names_defined_lines P [] = []"
| "names_defined_lines P (l # ls) = names_defined P l @ names_defined_lines P ls"

text \<open>The outer include guard of each header and the strategy by which the header
  defines \<open>sem_clockwait\<close> and \<open>close_range\<close>. A state is \<open>logged\<close> when every
  header whose guard is defined has its two definitions in the log.\<close>

fun guard :: "hdr \<Rightarrow> string" where
  "guard Bypass = ''REECH_BYPASS_H''"
| "guard Shim = ''SOVEREIGN_SHIM_H''"

fun strategy_of :: "hdr \<Rightarrow> strategy" where
  "strategy_of Bypass = AsMacro"
| "strategy_of Shim = AsFunction"

definition logged :: "tu_state \<Rightarrow> bool" where
  "logged st =
     (\<forall>h. is_defined (guard h) st \<longrightarrow>
        (''close_range'', strategy_of h) \<in> set (defs st)
        \<and> (''sem_clockwait'', strategy_of h) \<in> set (defs st))"

text \<open>A header is done in a state when all its include guards are defined there.\<close>

definition inc_done :: "hdr \<Rightarrow> tu_state \<Rightarrow> bool" where
  "inc_done h st = list_all (\<lambda>l. case guard_of l of None \<Rightarrow> False | Some g \<Rightarrow> is_defined g st)
                     (lines_of h)"

subsection \<open>A platform for the examples\<close>

text \<open>
  A Linux-like platform whose world is the list of open descriptors. Its kernel knows
  system call 436: it fails with \<open>EINVAL\<close> (22) when \<open>first > last\<close> and otherwise
  closes the descriptors in the range; any other number fails with \<open>ENOSYS\<close> (38).
  \<open>sem_timedwait\<close> times out (\<open>ETIMEDOUT\<close>, 110), \<open>pause\<close> never returns, and every
  other library function returns 7.
\<close>

fun demo_syscall :: "val list \<Rightarrow> int \<times> nat list \<Rightarrow> fault + val \<times> int \<times> nat list" where
  "demo_syscall [VInt nr, VInt a, VInt b, VInt fl] (en, fds) =
     (if nr \<noteq> 436 then Inr (VInt (- 1), 38, fds)
      else if b < a then Inr (VInt (- 1), 22, fds)
      else Inr (VInt 0, en, filter (\<lambda>fd. \<not> (a \<le> int fd \<and> int fd \<le> b)) fds))"
| "demo_syscall vs (en, fds) = Inr (VInt (- 1), 22, fds)"

definition demo_prim ::
  "string \<Rightarrow> val list \<Rightarrow> int \<times> nat list \<Rightarrow> fault + val \<times> int \<times> nat list" where
  "demo_prim f vs st =
     (if f = ''syscall'' then demo_syscall vs st
      else if f = ''sem_timedwait'' then Inr (VInt (- 1), 110, snd st)
      else if f = ''pause'' then Inl NoReturn
      else Inr (VInt 7, st))"

definition demo :: "nat list platform" where
  "demo = \<lparr>enosys = 38, sys_close_range = None, long_bits = 64, prim = demo_prim\<rparr>"

definition s0 :: "nat list pstate" where
  "s0 = \<lparr>errno = 0, world = [3, 5], trace = []\<rparr>"

section \<open>Basic facts\<close>

lemma bypass_state:
  "preprocess P [Bypass] =
     \<lparr>macros = bypass_macros P, funs = [],
      defs =
        [(''REECH_BYPASS_H'', AsMacro), (''close_range'', AsMacro),
         (''copy_file_range'', AsMacro), (''preadv2'', AsMacro),
         (''pwritev2'', AsMacro), (''setpwent'', AsMacro),
         (''endpwent'', AsMacro), (''getpwent'', AsMacro),
         (''getloadavg'', AsMacro), (''fexecve'', AsMacro),
         (''sem_clockwait'', AsMacro), (''FFI_BYPASS'', AsMacro)],
      conflicts = []\<rparr>"
  by (simp add: preprocess_def include_hdr_def bypass_fix_h_def bypass_body_def
      ffi_body_def define_macro_def
      sys_macros_def tu0_def bypass_macros_def)

lemma run_bypass:
  "run P [Bypass] env e s =
     (case expand (bypass_macros P) e of
        Inl err \<Rightarrow> Inl err
      | Inr e' \<Rightarrow> eval P [] env e' s)"
  by (simp add: run_def bypass_state split: sum.splits)

lemma shim_state:
  "preprocess P [Shim] =
     \<lparr>macros = shim_macros P, funs = shim_funs P,
      defs = [(''SOVEREIGN_SHIM_H'', AsMacro), (''sem_clockwait'', AsFunction)]
             @ (if sys_close_range P = None then [(''SYS_close_range'', AsMacro)] else [])
             @ [(''close_range'', AsFunction)],
      conflicts = []\<rparr>"
  by (cases "sys_close_range P")
     (simp_all add: preprocess_def include_hdr_def sovereign_shim_h_def shim_body_def
      define_macro_def
      sys_macros_def tu0_def define_fun_def clobbered_def is_object_like_def
      shim_sem_clockwait_def shim_close_range_def shim_macros_def shim_funs_def
      shim_syscall_nr_def)

lemma run_shim:
  "run P [Shim] env e s =
     (case expand (shim_macros P) e of
        Inl err \<Rightarrow> Inl err
      | Inr e' \<Rightarrow> eval P (shim_funs P) env e' s)"
  by (simp add: run_def shim_state split: sum.splits)

lemma to_cint_idem: "to_cint (to_cint x) = to_cint x"
  by (simp add: to_cint_def)

lemma to_cint_id: "is_cint r \<Longrightarrow> to_cint r = r"
  by (simp add: to_cint_def is_cint_def)

lemma convert_cint_idem:
  "convert lb CInt v = Inr v' \<Longrightarrow> convert lb' CInt v' = Inr v'"
  by (cases v) (auto simp: to_cint_idem)

text \<open>What \<open>sem_timedwait\<close> hands back is a value of its declared type \<open>int\<close>.\<close>

lemma lib_call_sem_timedwait_int:
  "lib_call P ''sem_timedwait'' vs s = Inr (v, s') \<Longrightarrow> convert lb CInt v = Inr v"
  by (auto simp: lib_call_def lib_ret_def Let_def split: sum.splits prod.splits
      dest: convert_cint_idem)

lemma bypass_sem_clockwait_run:
  "run P [Bypass] env (Call ''sem_clockwait'' [Lit a, c, Lit b]) s =
     lib_call P ''sem_timedwait'' [a, b] s"
  by (simp add: run_bypass bypass_macros_def)

lemma bypass_sem_timedwait_run:
  "run P [Bypass] env (Call ''sem_timedwait'' [Lit a, Lit b]) s =
     lib_call P ''sem_timedwait'' [a, b] s"
  by (simp add: run_bypass bypass_macros_def)

lemma shim_sem_clockwait_run:
  "run P [Shim] env
       (Call ''sem_clockwait'' [Lit (VPtr sem), Lit (VInt c), Lit (VPtr t)]) s =
     lib_call P ''sem_timedwait'' [VPtr sem, VPtr t] s"
proof (cases "lib_call P ''sem_timedwait'' [VPtr sem, VPtr t] s")
  case (Inl err)
  then show ?thesis
    by (simp add: run_shim shim_macros_def shim_funs_def shim_sem_clockwait_def)
next
  case (Inr r)
  obtain v s' where r: "r = (v, s')" by (cases r)
  have "convert (long_bits P) CInt v = Inr v"
    using Inr r by (auto dest: lib_call_sem_timedwait_int)
  then show ?thesis using Inr r
    by (simp add: run_shim shim_macros_def shim_funs_def shim_sem_clockwait_def)
qed

lemma shim_sem_timedwait_run:
  "run P [Shim] env (Call ''sem_timedwait'' [Lit a, Lit b]) s =
     lib_call P ''sem_timedwait'' [a, b] s"
  by (simp add: run_shim shim_macros_def shim_funs_def)

lemma shim_close_range_run:
  "run P [Shim] env (Call ''close_range'' [IntLit a, IntLit b, IntLit c]) s =
     (case lib_call P ''syscall''
             [VInt (shim_syscall_nr P), VInt (to_cuint a), VInt (to_cuint b),
              VInt (to_cuint c)] s of
        Inl err \<Rightarrow> Inl err
      | Inr (v, s') \<Rightarrow>
          (case convert (long_bits P) CInt v of
             Inl err \<Rightarrow> Inl err
           | Inr v' \<Rightarrow> Inr (v', s')))"
  by (simp add: run_shim shim_macros_def shim_funs_def shim_close_range_def
      split: sum.splits prod.splits)

lemma shim_raw_run:
  "run P [Shim] env (Call ''syscall'' [Ident ''SYS_close_range'', Lit a, Lit b, Lit c]) s =
     lib_call P ''syscall'' [VInt (shim_syscall_nr P), a, b, c] s"
  by (simp add: run_shim shim_macros_def shim_funs_def)

lemma sys_macros_at:
  "sys_macros P ''time.h'' = []"
  "sys_macros P ''semaphore.h'' = []"
  "sys_macros P ''unistd.h'' = []"
  "sys_macros P ''errno.h'' = [(''ENOSYS'', ObjMacro (IntLit (enosys P)))]"
  "sys_macros P ''sys/syscall.h'' =
     (case sys_close_range P of
        None \<Rightarrow> []
      | Some n \<Rightarrow> [(''SYS_close_range'', ObjMacro (IntLit n))])"
  by (simp_all add: sys_macros_def)

lemma shim_includes:
  "includes_of_lines sovereign_shim_h =
     [''time.h'', ''semaphore.h'', ''errno.h'', ''unistd.h'', ''sys/syscall.h'']"
  by (simp add: sovereign_shim_h_def shim_body_def)

lemma shim_platform_defines:
  "platform_defines P (includes_of_lines sovereign_shim_h) ''SYS_close_range'' \<longleftrightarrow>
     sys_close_range P \<noteq> None"
  by (cases "sys_close_range P")
     (simp_all add: shim_includes platform_defines_def sys_macros_at)

lemma demo_syscall_nr: "shim_syscall_nr demo = 436"
  by (simp add: shim_syscall_nr_def demo_def)

lemma to_clong_64_small: "to_clong 64 (- 1) = - 1" "to_clong 64 0 = 0"
  by (simp_all add: to_clong_def)

lemma demo_raw_inverted_range:
  "lib_call demo ''syscall'' [VInt 436, VInt 10, VInt 3, VInt 0] s0 =
     Inr (VInt (- 1), \<lparr>errno = 22, world = [3, 5],
        trace = [(''syscall'', [VInt 436, VInt 10, VInt 3, VInt 0])]\<rparr>)"
  by (simp add: lib_call_def demo_def demo_prim_def lib_ret_def s0_def to_clong_64_small)

subsection \<open>Include guards\<close>

lemma is_defined_define_macro_same: "is_defined n (define_macro n m st)"
  by (simp add: is_defined_def define_macro_def update_conv' split: option.splits)

lemma is_defined_define_macro_mono:
  "is_defined x st \<Longrightarrow> is_defined x (define_macro n m st)"
  by (auto simp: is_defined_def define_macro_def update_conv' split: option.splits)

lemma is_defined_define_all_mono:
  "is_defined x st \<Longrightarrow> is_defined x (define_all ms st)"
  by (induction ms st rule: define_all.induct) (auto simp: is_defined_define_macro_mono)

lemma macros_define_fun: "macros (define_fun d st) = macros st"
  by (simp add: define_fun_def Let_def split: sum.splits)

lemma is_defined_defs_update: "is_defined x (st\<lparr>defs := ds\<rparr>) = is_defined x st"
  by (simp add: is_defined_def)

lemma is_defined_pp_mono:
  "is_defined x st \<Longrightarrow> is_defined x (pp_line P l st)"
  "is_defined x st \<Longrightarrow> is_defined x (pp_lines P ls st)"
proof (induction P l st and P ls st rule: pp_line_pp_lines.induct)
  case (1 P h st)
  then show ?case by (simp add: is_defined_define_all_mono)
next
  case (2 P n m st)
  then show ?case by (simp add: is_defined_define_macro_mono is_defined_defs_update)
next
  case (3 P g ls st)
  then show ?case by simp
next
  case (4 P d st)
  then show ?case by (simp add: is_defined_def macros_define_fun)
next
  case (5 P st)
  then show ?case by simp
next
  case (6 P l ls st)
  then show ?case by simp
qed

lemma guard_of_SomeD:
  "guard_of l = Some g \<Longrightarrow> \<exists>ls. l = Ifndef g (Define g Flag # ls)"
  by (induction l rule: guard_of.induct) (auto split: if_splits)

lemma guard_defined_after:
  assumes "guard_of l = Some g"
  shows "is_defined g (pp_line P l st)"
proof -
  obtain ls where l: "l = Ifndef g (Define g Flag # ls)"
    using assms by (auto dest: guard_of_SomeD)
  show ?thesis
  proof (cases "is_defined g st")
    case True
    then show ?thesis by (rule is_defined_pp_mono)
  next
    case False
    then have "pp_line P l st =
        pp_lines P ls (define_macro g Flag (st\<lparr>defs := defs st @ [(g, AsMacro)]\<rparr>))"
      by (simp add: l is_defined_def)
    then show ?thesis
      by (simp add: is_defined_pp_mono is_defined_define_macro_same)
  qed
qed

lemma guarded_skip:
  "guard_of l = Some g \<Longrightarrow> is_defined g st \<Longrightarrow> pp_line P l st = st"
  by (auto dest!: guard_of_SomeD simp: is_defined_def)

lemma all_guarded_skip:
  "(\<forall>l \<in> set ls. \<exists>g. guard_of l = Some g \<and> is_defined g st) \<Longrightarrow> pp_lines P ls st = st"
  by (induction ls) (auto simp: guarded_skip)

lemma guards_defined_after:
  "(\<forall>l \<in> set ls. guard_of l \<noteq> None) \<Longrightarrow>
   \<forall>l \<in> set ls. \<exists>g. guard_of l = Some g \<and> is_defined g (pp_lines P ls st)"
proof (induction ls arbitrary: st)
  case Nil
  then show ?case by simp
next
  case (Cons l ls)
  then obtain g where g: "guard_of l = Some g" by auto
  have "is_defined g (pp_line P l st)" using g by (rule guard_defined_after)
  then have "is_defined g (pp_lines P ls (pp_line P l st))" by (rule is_defined_pp_mono)
  moreover have "\<forall>l' \<in> set ls. \<exists>g. guard_of l' = Some g
      \<and> is_defined g (pp_lines P ls (pp_line P l st))"
    using Cons by simp
  ultimately show ?case using g by simp
qed

lemma guarded_idempotent:
  assumes "\<forall>l \<in> set ls. guard_of l \<noteq> None"
  shows "pp_lines P ls (pp_lines P ls st) = pp_lines P ls st"
  using guards_defined_after [OF assms] by (intro all_guarded_skip)

lemma bypass_guards:
  "map guard_of bypass_fix_h = [Some ''REECH_BYPASS_H'', Some ''FFI_BYPASS'']"
  by (simp add: bypass_fix_h_def bypass_body_def ffi_body_def)

lemma shim_guards: "map guard_of sovereign_shim_h = [Some ''SOVEREIGN_SHIM_H'']"
  by (simp add: sovereign_shim_h_def shim_body_def)

lemma headers_guarded: "\<forall>l \<in> set (lines_of h). guard_of l \<noteq> None"
  by (cases h)
     (simp_all add: bypass_fix_h_def bypass_body_def ffi_body_def sovereign_shim_h_def
      shim_body_def)

lemma include_hdr_idem: "include_hdr P h (include_hdr P h st) = include_hdr P h st"
  unfolding include_hdr_def using headers_guarded by (rule guarded_idempotent)

lemma include_all_replicate:
  "include_all P (replicate (Suc n) h) st = include_hdr P h st"
proof (induction n arbitrary: st)
  case 0
  then show ?case by simp
next
  case (Suc n)
  have "include_all P (replicate (Suc (Suc n)) h) st =
        include_all P (replicate (Suc n) h) (include_hdr P h st)"
    by simp
  also have "\<dots> = include_hdr P h (include_hdr P h st)" by (rule Suc.IH)
  also have "\<dots> = include_hdr P h st" by (rule include_hdr_idem)
  finally show ?case .
qed

lemma single_no_conflict: "conflicts (preprocess P [h]) = []"
  by (cases h) (simp_all add: bypass_state shim_state)

subsection \<open>The stubs of \<open>bypass_fix.h\<close>\<close>

lemma always_fail_stubs_eq:
  "always_fail_stubs =
     [(''close_range'', 3), (''copy_file_range'', 6), (''preadv2'', 5), (''pwritev2'', 5),
      (''getloadavg'', 2), (''fexecve'', 3)]"
  by (simp add: always_fail_stubs_def bypass_fix_h_def bypass_body_def ffi_body_def
      always_fail_def)

lemma length_2: "length xs = 2 \<Longrightarrow> \<exists>a b. xs = [a, b]"
  by (auto simp: length_Suc_conv eval_nat_numeral)
lemma length_3: "length xs = 3 \<Longrightarrow> \<exists>a b c. xs = [a, b, c]"
  by (auto simp: length_Suc_conv eval_nat_numeral)
lemma length_5: "length xs = 5 \<Longrightarrow> \<exists>a b c d e. xs = [a, b, c, d, e]"
  by (auto simp: length_Suc_conv eval_nat_numeral)
lemma length_6: "length xs = 6 \<Longrightarrow> \<exists>a b c d e f. xs = [a, b, c, d, e, f]"
  by (auto simp: length_Suc_conv eval_nat_numeral)

lemma always_fail_each:
  "length (xs :: expr list) = 3 \<Longrightarrow> run P [Bypass] env (Call ''close_range'' xs) s =
      Inr (VInt (- 1), s\<lparr>errno := to_cint (enosys P)\<rparr>)"
  "length xs = 6 \<Longrightarrow> run P [Bypass] env (Call ''copy_file_range'' xs) s =
      Inr (VInt (- 1), s\<lparr>errno := to_cint (enosys P)\<rparr>)"
  "length xs = 5 \<Longrightarrow> run P [Bypass] env (Call ''preadv2'' xs) s =
      Inr (VInt (- 1), s\<lparr>errno := to_cint (enosys P)\<rparr>)"
  "length xs = 5 \<Longrightarrow> run P [Bypass] env (Call ''pwritev2'' xs) s =
      Inr (VInt (- 1), s\<lparr>errno := to_cint (enosys P)\<rparr>)"
  "length xs = 2 \<Longrightarrow> run P [Bypass] env (Call ''getloadavg'' xs) s =
      Inr (VInt (- 1), s\<lparr>errno := to_cint (enosys P)\<rparr>)"
  "length xs = 3 \<Longrightarrow> run P [Bypass] env (Call ''fexecve'' xs) s =
      Inr (VInt (- 1), s\<lparr>errno := to_cint (enosys P)\<rparr>)"
proof -
  show "length xs = 3 \<Longrightarrow> run P [Bypass] env (Call ''close_range'' xs) s =
      Inr (VInt (- 1), s\<lparr>errno := to_cint (enosys P)\<rparr>)"
    by (drule length_3) (auto simp: run_bypass bypass_macros_def always_fail_def)
  show "length xs = 6 \<Longrightarrow> run P [Bypass] env (Call ''copy_file_range'' xs) s =
      Inr (VInt (- 1), s\<lparr>errno := to_cint (enosys P)\<rparr>)"
    by (drule length_6) (auto simp: run_bypass bypass_macros_def always_fail_def)
  show "length xs = 5 \<Longrightarrow> run P [Bypass] env (Call ''preadv2'' xs) s =
      Inr (VInt (- 1), s\<lparr>errno := to_cint (enosys P)\<rparr>)"
    by (drule length_5) (auto simp: run_bypass bypass_macros_def always_fail_def)
  show "length xs = 5 \<Longrightarrow> run P [Bypass] env (Call ''pwritev2'' xs) s =
      Inr (VInt (- 1), s\<lparr>errno := to_cint (enosys P)\<rparr>)"
    by (drule length_5) (auto simp: run_bypass bypass_macros_def always_fail_def)
  show "length xs = 2 \<Longrightarrow> run P [Bypass] env (Call ''getloadavg'' xs) s =
      Inr (VInt (- 1), s\<lparr>errno := to_cint (enosys P)\<rparr>)"
    by (drule length_2) (auto simp: run_bypass bypass_macros_def always_fail_def)
  show "length xs = 3 \<Longrightarrow> run P [Bypass] env (Call ''fexecve'' xs) s =
      Inr (VInt (- 1), s\<lparr>errno := to_cint (enosys P)\<rparr>)"
    by (drule length_3) (auto simp: run_bypass bypass_macros_def always_fail_def)
qed

lemma always_fail_all:
  "\<forall>(f, n) \<in> set always_fail_stubs. \<forall>args. length args = n \<longrightarrow>
     run P [Bypass] env (Call f args) s =
       Inr (VInt (- 1), s\<lparr>errno := to_cint (enosys P)\<rparr>)"
  unfolding always_fail_stubs_eq by (simp add: always_fail_each)

lemma always_fail_run:
  assumes "(f, n) \<in> set always_fail_stubs" and "length args = n"
  shows "run P [Bypass] env (Call f args) s =
           Inr (VInt (- 1), s\<lparr>errno := to_cint (enosys P)\<rparr>)"
  using always_fail_all [of P env s] assms by blast

lemma pw_setpwent: "run P [Bypass] env (Call ''setpwent'' []) s = Inr (VVoid, s)"
  by (simp add: run_bypass bypass_macros_def)
lemma pw_endpwent: "run P [Bypass] env (Call ''endpwent'' []) s = Inr (VVoid, s)"
  by (simp add: run_bypass bypass_macros_def)
lemma pw_getpwent: "run P [Bypass] env (Call ''getpwent'' []) s = Inr (VPtr 0, s)"
  by (simp add: run_bypass bypass_macros_def)

lemma pw_run:
  "e \<in> {Call ''setpwent'' [], Call ''endpwent'' [], Call ''getpwent'' []} \<Longrightarrow>
   run P [Bypass] env e s = Inr (pw_result e, s)"
  by (auto simp: pw_setpwent pw_endpwent pw_getpwent pw_result_def)

lemma pw_run_seq:
  "set es \<subseteq> {Call ''setpwent'' [], Call ''endpwent'' [], Call ''getpwent'' []} \<Longrightarrow>
   run_seq P [Bypass] env es s = Inr (map pw_result es, s)"
proof (induction es)
  case Nil
  then show ?case by simp
next
  case (Cons e es)
  then have "run P [Bypass] env e s = Inr (pw_result e, s)"
    by (intro pw_run) simp
  then show ?case using Cons by simp
qed

subsection \<open>Arguments\<close>

lemma bypass_unused_params:
  "map (\<lambda>(f, n). map_option unused_params (map_of (macros (preprocess P [Bypass])) f))
       always_fail_stubs =
     [Some [''a'', ''b'', ''c''], Some [''a'', ''b'', ''c'', ''d'', ''e'', ''f''],
      Some [''a'', ''b'', ''c'', ''d'', ''e''], Some [''a'', ''b'', ''c'', ''d'', ''e''],
      Some [''a'', ''b''], Some [''a'', ''b'', ''c'']]"
  by (simp add: always_fail_stubs_eq bypass_state bypass_macros_def always_fail_def)

lemma bypass_sem_clockwait_unused:
  "map_option unused_params (map_of (macros (preprocess P [Bypass])) ''sem_clockwait'') =
     Some [''clock'']"
  by (simp add: bypass_state bypass_macros_def)

lemma bypass_sem_clockwait_expr:
  "run P [Bypass] env (Call ''sem_clockwait'' [a, c, b]) s =
     run P [Bypass] env (Call ''sem_timedwait'' [a, b]) s"
  by (simp add: run_bypass bypass_macros_def split: sum.splits)

lemma shim_not_macro:
  "map_of (shim_macros P) ''close_range'' = None"
  "map_of (shim_macros P) ''sem_clockwait'' = None"
  by (simp_all add: shim_macros_def)

lemma shim_find_fun:
  "find_fun ''close_range'' (shim_funs P) =
     Some (snd (hd (shim_funs P)), tl (shim_funs P))"
  "find_fun ''sem_clockwait'' (shim_funs P) = Some (shim_sem_clockwait, [])"
  by (simp_all add: shim_funs_def)

lemma shim_params_length:
  "length (params (snd (hd (shim_funs P)))) = 3"
  "length (params shim_sem_clockwait) = 3"
  by (simp_all add: shim_funs_def shim_close_range_def shim_sem_clockwait_def)

lemma run_seq3D:
  assumes "run_seq P hs env [a, b, c] s = Inr ([v1, v2, v3], s3)"
  obtains s1 s2 where "run P hs env a s = Inr (v1, s1)"
    and "run P hs env b s1 = Inr (v2, s2)" and "run P hs env c s2 = Inr (v3, s3)"
  using assms by (auto split: sum.splits)

lemma run_shimD:
  assumes "run P [Shim] env e s = Inr r"
  obtains e' where "expand (shim_macros P) e = Inr e'"
    and "eval P (shim_funs P) env e' s = Inr r"
  using assms by (auto simp: run_shim split: sum.splits)

lemma shim_function_args_once:
  assumes "run_seq P [Shim] env [a, b, c] s = Inr ([v1, v2, v3], s3)"
    and "f = ''close_range'' \<or> f = ''sem_clockwait''"
  shows "run P [Shim] env (Call f [a, b, c]) s =
         run P [Shim] env (Call f [Lit v1, Lit v2, Lit v3]) s3"
proof -
  obtain s1 s2 where r: "run P [Shim] env a s = Inr (v1, s1)"
    "run P [Shim] env b s1 = Inr (v2, s2)" "run P [Shim] env c s2 = Inr (v3, s3)"
    using assms(1) by (rule run_seq3D)
  obtain a' where a: "expand (shim_macros P) a = Inr a'"
    "eval P (shim_funs P) env a' s = Inr (v1, s1)"
    using r(1) by (rule run_shimD)
  obtain b' where b: "expand (shim_macros P) b = Inr b'"
    "eval P (shim_funs P) env b' s1 = Inr (v2, s2)"
    using r(2) by (rule run_shimD)
  obtain c' where c: "expand (shim_macros P) c = Inr c'"
    "eval P (shim_funs P) env c' s2 = Inr (v3, s3)"
    using r(3) by (rule run_shimD)
  show ?thesis
    using assms(2) a b c
    by (auto simp: run_shim shim_not_macro shim_find_fun shim_params_length)
qed


lemma demo_lib_other:
  "f \<noteq> ''syscall'' \<Longrightarrow> f \<noteq> ''sem_timedwait'' \<Longrightarrow> f \<noteq> ''pause'' \<Longrightarrow>
   lib_call demo f vs s = Inr (VInt 7, s\<lparr>trace := trace s @ [(f, vs)]\<rparr>)"
  by (simp add: lib_call_def demo_def demo_prim_def lib_ret_def)

lemma demo_lib_sem_timedwait:
  "lib_call demo ''sem_timedwait'' vs s =
     Inr (VInt (- 1), s\<lparr>errno := 110, trace := trace s @ [(''sem_timedwait'', vs)]\<rparr>)"
  by (simp add: lib_call_def demo_def demo_prim_def lib_ret_def to_cint_def)

lemma demo_lib_close_7:
  "lib_call demo ''syscall'' [VInt 436, VInt 7, VInt 7, VInt 7] s =
     Inr (VInt 0, s\<lparr>world := filter (\<lambda>fd. fd \<noteq> 7) (world s),
        trace := trace s @ [(''syscall'', [VInt 436, VInt 7, VInt 7, VInt 7])]\<rparr>)"
proof -
  have "(\<lambda>fd. \<not> (7 \<le> int fd \<and> int fd \<le> 7)) = (\<lambda>fd. fd \<noteq> 7)"
    by (rule ext) auto
  then show ?thesis
    by (simp add: lib_call_def demo_def demo_prim_def lib_ret_def to_clong_64_small)
qed

lemma run_shim_lib:
  "f \<noteq> ''close_range'' \<Longrightarrow> f \<noteq> ''sem_clockwait'' \<Longrightarrow> f \<noteq> ''SYS_close_range'' \<Longrightarrow>
   f \<noteq> ''ENOSYS'' \<Longrightarrow> f \<noteq> ''SOVEREIGN_SHIM_H'' \<Longrightarrow>
   run P [Shim] env (Call f []) s = lib_call P f [] s"
  by (simp add: run_shim shim_macros_def shim_funs_def)

lemma run_shim_lit: "run P [Shim] env (Lit v) s = Inr (v, s)"
  by (simp add: run_shim)

subsection \<open>Both headers in one translation unit\<close>

lemma defs_define_macro: "defs (define_macro n m st) = defs st"
  by (simp add: define_macro_def split: option.splits)

lemma defs_define_all: "defs (define_all ms st) = defs st"
  by (induction ms st rule: define_all.induct) (simp_all add: defs_define_macro)

lemma defs_define_fun: "defs (define_fun d st) = defs st @ [(fname d, AsFunction)]"
  by (simp add: define_fun_def Let_def split: sum.splits)

lemma defs_pp_mono:
  "set (defs st) \<subseteq> set (defs (pp_line P l st))"
  "set (defs st) \<subseteq> set (defs (pp_lines P ls st))"
proof (induction P l st and P ls st rule: pp_line_pp_lines.induct)
  case (1 P h st)
  then show ?case by (simp add: defs_define_all)
next
  case (2 P n m st)
  then show ?case by (auto simp: defs_define_macro)
next
  case (3 P g ls st)
  then show ?case by simp
next
  case (4 P d st)
  then show ?case by (auto simp: defs_define_fun)
next
  case (5 P st)
  then show ?case by simp
next
  case (6 P l ls st)
  then show ?case by (simp; blast)
qed

lemma define_logged:
  "Define n m \<in> set ls \<Longrightarrow> (n, AsMacro) \<in> set (defs (pp_lines P ls st))"
proof (induction ls arbitrary: st)
  case Nil
  then show ?case by simp
next
  case (Cons l ls)
  show ?case
  proof (cases "l = Define n m")
    case True
    have "(n, AsMacro) \<in> set (defs (pp_line P l st))"
      by (simp add: True defs_define_macro)
    then show ?thesis using defs_pp_mono(2) [of "pp_line P l st" P ls] by auto
  next
    case False
    then show ?thesis using Cons by simp
  qed
qed

lemma fundef_logged:
  "FunDef d \<in> set ls \<Longrightarrow> (fname d, AsFunction) \<in> set (defs (pp_lines P ls st))"
proof (induction ls arbitrary: st)
  case Nil
  then show ?case by simp
next
  case (Cons l ls)
  show ?case
  proof (cases "l = FunDef d")
    case True
    have "(fname d, AsFunction) \<in> set (defs (pp_line P l st))"
      by (simp add: True defs_define_fun)
    then show ?thesis using defs_pp_mono(2) [of "pp_line P l st" P ls] by auto
  next
    case False
    then show ?thesis using Cons by simp
  qed
qed

lemma is_defined_define_macroD:
  "is_defined x (define_macro n m st) \<Longrightarrow> x = n \<or> is_defined x st"
  by (auto simp: is_defined_def define_macro_def update_conv' split: option.splits if_splits)

lemma is_defined_define_allD:
  "is_defined x (define_all ms st) \<Longrightarrow> x \<in> fst ` set ms \<or> is_defined x st"
  by (induction ms st rule: define_all.induct)
     (auto dest!: is_defined_define_macroD)

lemma is_defined_ppD:
  "is_defined x (pp_line P l st) \<Longrightarrow> x \<in> set (names_defined P l) \<or> is_defined x st"
  "is_defined x (pp_lines P ls st) \<Longrightarrow> x \<in> set (names_defined_lines P ls) \<or> is_defined x st"
proof (induction P l st and P ls st arbitrary: and rule: pp_line_pp_lines.induct)
  case (1 P h st)
  then show ?case by (auto dest: is_defined_define_allD)
next
  case (2 P n m st)
  then show ?case by (auto dest: is_defined_define_macroD simp: is_defined_defs_update)
next
  case (3 P g ls st)
  then show ?case by (auto split: if_splits)
next
  case (4 P d st)
  then show ?case by (simp add: is_defined_def macros_define_fun)
next
  case (5 P st)
  then show ?case by simp
next
  case (6 P l ls st)
  then show ?case by auto
qed


lemma is_defined_include_mono:
  "is_defined x st \<Longrightarrow> is_defined x (include_hdr P h st)"
  unfolding include_hdr_def by (rule is_defined_pp_mono)

lemma defs_include_mono: "set (defs st) \<subseteq> set (defs (include_hdr P h st))"
  unfolding include_hdr_def by (rule defs_pp_mono)

lemma guard_defined_by_include: "is_defined (guard h) (include_hdr P h st)"
proof -
  have "\<forall>l \<in> set (lines_of h). \<exists>g. guard_of l = Some g
      \<and> is_defined g (pp_lines P (lines_of h) st)"
    using headers_guarded by (rule guards_defined_after)
  then show ?thesis
    by (cases h)
       (simp_all add: include_hdr_def bypass_fix_h_def bypass_body_def ffi_body_def
        sovereign_shim_h_def shim_body_def)
qed

lemma bypass_names_defined:
  "names_defined_lines P bypass_fix_h =
     [''REECH_BYPASS_H'', ''ENOSYS'', ''close_range'', ''copy_file_range'', ''preadv2'',
      ''pwritev2'', ''setpwent'', ''endpwent'', ''getpwent'', ''getloadavg'', ''fexecve'',
      ''sem_clockwait'', ''FFI_BYPASS'']"
  by (simp add: bypass_fix_h_def bypass_body_def ffi_body_def sys_macros_def)

lemma shim_names_defined:
  "set (names_defined_lines P sovereign_shim_h) \<subseteq>
     {''SOVEREIGN_SHIM_H'', ''ENOSYS'', ''SYS_close_range''}"
  by (cases "sys_close_range P")
     (simp_all add: sovereign_shim_h_def shim_body_def sys_macros_at)

lemma other_guard_not_defined_by:
  "guard Shim \<notin> set (names_defined_lines P (lines_of Bypass))"
  "guard Bypass \<notin> set (names_defined_lines P (lines_of Shim))"
  using shim_names_defined [of P] by (auto simp: bypass_names_defined)

lemma hdr_neq: "h' \<noteq> h \<Longrightarrow> (h = Bypass \<and> h' = Shim) \<or> (h = Shim \<and> h' = Bypass)"
  by (cases h; cases h') simp_all

lemma other_guard_unchanged:
  assumes "h' \<noteq> h" and "is_defined (guard h') (include_hdr P h st)"
  shows "is_defined (guard h') st"
proof -
  have "guard h' \<notin> set (names_defined_lines P (lines_of h))"
    using hdr_neq [OF assms(1)] other_guard_not_defined_by [of P] by auto
  then show ?thesis
    using assms(2) is_defined_ppD(2) [of "guard h'" P "lines_of h" st]
    by (auto simp: include_hdr_def)
qed

lemma include_bypass_logs:
  assumes "\<not> is_defined (guard Bypass) st"
  shows "(''close_range'', AsMacro) \<in> set (defs (include_hdr P Bypass st))
       \<and> (''sem_clockwait'', AsMacro) \<in> set (defs (include_hdr P Bypass st))"
proof -
  have inc: "include_hdr P Bypass st =
      pp_line P (Ifndef ''FFI_BYPASS'' ffi_body) (pp_lines P bypass_body st)"
    using assms by (simp add: include_hdr_def bypass_fix_h_def is_defined_def)
  have "(''close_range'', AsMacro) \<in> set (defs (pp_lines P bypass_body st))"
    by (rule define_logged [where m = "FunMacro [''a'', ''b'', ''c''] always_fail"])
       (simp add: bypass_body_def)
  moreover have "(''sem_clockwait'', AsMacro) \<in> set (defs (pp_lines P bypass_body st))"
    by (rule define_logged [where m = "FunMacro [''sem'', ''clock'', ''timeout'']
           (Call ''sem_timedwait'' [Ident ''sem'', Ident ''timeout''])"])
       (simp add: bypass_body_def)
  moreover have "set (defs (pp_lines P bypass_body st)) \<subseteq>
      set (defs (pp_line P (Ifndef ''FFI_BYPASS'' ffi_body) (pp_lines P bypass_body st)))"
    by (rule defs_pp_mono)
  ultimately show ?thesis
    unfolding inc by blast
qed

lemma shim_fnames:
  "fname shim_close_range = ''close_range''" "fname shim_sem_clockwait = ''sem_clockwait''"
  by (simp_all add: shim_close_range_def shim_sem_clockwait_def)

lemma include_shim_logs:
  assumes "\<not> is_defined (guard Shim) st"
  shows "(''close_range'', AsFunction) \<in> set (defs (include_hdr P Shim st))
       \<and> (''sem_clockwait'', AsFunction) \<in> set (defs (include_hdr P Shim st))"
proof -
  have inc: "include_hdr P Shim st = pp_lines P shim_body st"
    using assms by (simp add: include_hdr_def sovereign_shim_h_def is_defined_def)
  have "(fname shim_close_range, AsFunction) \<in> set (defs (pp_lines P shim_body st))"
    by (rule fundef_logged) (simp add: shim_body_def)
  moreover have
    "(fname shim_sem_clockwait, AsFunction) \<in> set (defs (pp_lines P shim_body st))"
    by (rule fundef_logged) (simp add: shim_body_def)
  ultimately show ?thesis
    unfolding inc shim_fnames by blast
qed

lemma include_logs_own:
  assumes "\<not> is_defined (guard h) st"
  shows "(''close_range'', strategy_of h) \<in> set (defs (include_hdr P h st))
       \<and> (''sem_clockwait'', strategy_of h) \<in> set (defs (include_hdr P h st))"
proof (cases h)
  case Bypass
  then show ?thesis using assms include_bypass_logs [of st P] by simp
next
  case Shim
  then show ?thesis using assms include_shim_logs [of st P] by simp
qed

lemma logged_include:
  assumes "logged st"
  shows "logged (include_hdr P h st)"
  unfolding logged_def
proof (intro allI impI)
  fix h'
  assume d: "is_defined (guard h') (include_hdr P h st)"
  show "(''close_range'', strategy_of h') \<in> set (defs (include_hdr P h st))
      \<and> (''sem_clockwait'', strategy_of h') \<in> set (defs (include_hdr P h st))"
  proof (cases "is_defined (guard h') st")
    case True
    then show ?thesis
      using assms defs_include_mono [of st P h] by (auto simp: logged_def)
  next
    case False
    then have "h' = h" using other_guard_unchanged [OF _ d] by blast
    then show ?thesis using False include_logs_own by simp
  qed
qed

lemma logged_tu0: "logged tu0"
  by (simp add: logged_def is_defined_def tu0_def)

lemma logged_include_all: "logged st \<Longrightarrow> logged (include_all P hs st)"
  by (induction hs arbitrary: st) (simp_all add: logged_include)

lemma is_defined_include_all_mono:
  "is_defined x st \<Longrightarrow> is_defined x (include_all P hs st)"
  by (induction hs arbitrary: st) (simp_all add: is_defined_include_mono)

lemma guard_defined_by_include_all:
  "h \<in> set hs \<Longrightarrow> is_defined (guard h) (include_all P hs st)"
proof (induction hs arbitrary: st)
  case Nil
  then show ?case by simp
next
  case (Cons h' hs)
  show ?case
  proof (cases "h = h'")
    case True
    then show ?thesis
      by (simp add: is_defined_include_all_mono guard_defined_by_include)
  next
    case False
    then show ?thesis using Cons by simp
  qed
qed

lemma included_is_logged:
  assumes "h \<in> set hs"
  shows "(''close_range'', strategy_of h) \<in> set (defs (preprocess P hs))"
    and "(''sem_clockwait'', strategy_of h) \<in> set (defs (preprocess P hs))"
proof -
  have "logged (preprocess P hs)"
    unfolding preprocess_def using logged_tu0 by (rule logged_include_all)
  moreover have "is_defined (guard h) (preprocess P hs)"
    unfolding preprocess_def using assms by (rule guard_defined_by_include_all)
  ultimately show "(''close_range'', strategy_of h) \<in> set (defs (preprocess P hs))"
    and "(''sem_clockwait'', strategy_of h) \<in> set (defs (preprocess P hs))"
    by (auto simp: logged_def)
qed

lemma two_entries_counted:
  assumes "(n, AsMacro) \<in> set ds" and "(n, AsFunction) \<in> set ds"
  shows "2 \<le> length (filter (\<lambda>d. fst d = n) ds)"
proof -
  have "{(n, AsMacro), (n, AsFunction)} \<subseteq> set (filter (\<lambda>d. fst d = n) ds)"
    using assms by simp
  then have "card {(n, AsMacro), (n, AsFunction)} \<le> card (set (filter (\<lambda>d. fst d = n) ds))"
    by (intro card_mono) simp_all
  also have "\<dots> \<le> length (filter (\<lambda>d. fst d = n) ds)" by (rule card_length)
  finally show ?thesis by simp
qed

lemma both_included_defined_twice:
  assumes "Bypass \<in> set hs" and "Shim \<in> set hs"
  shows "2 \<le> def_count ''close_range'' (preprocess P hs)"
    and "2 \<le> def_count ''sem_clockwait'' (preprocess P hs)"
  unfolding def_count_def
  using included_is_logged [OF assms(1), of P] included_is_logged [OF assms(2), of P]
  by (simp_all add: two_entries_counted)

lemma only_one_header:
  assumes "h' \<notin> set hs" and "h' \<noteq> h"
  shows "hs = replicate (length hs) (h :: hdr)"
proof -
  have "x = h" if "x \<in> set hs" for x
  proof -
    have "x \<noteq> h'" using that assms(1) by auto
    then show ?thesis using hdr_neq [OF assms(2)] hdr_neq [of x h'] by auto
  qed
  then show ?thesis by (simp add: replicate_length_same)
qed

lemma preprocess_replicate:
  "preprocess P (replicate n h) = (if n = 0 then tu0 else preprocess P [h])"
proof (cases n)
  case 0
  then show ?thesis by (simp add: preprocess_def)
next
  case (Suc k)
  have "include_all P (replicate (Suc k) h) tu0 = include_hdr P h tu0"
    by (rule include_all_replicate)
  then show ?thesis unfolding preprocess_def Suc by simp
qed

lemma single_header_counts:
  "def_count ''close_range'' (preprocess P [h]) = 1"
  "def_count ''sem_clockwait'' (preprocess P [h]) = 1"
  by (cases h; simp add: def_count_def bypass_state shim_state)+

lemma not_both_defined_at_most_once:
  assumes "\<not> (Bypass \<in> set hs \<and> Shim \<in> set hs)"
  shows "def_count ''close_range'' (preprocess P hs) \<le> 1"
    and "def_count ''sem_clockwait'' (preprocess P hs) \<le> 1"
proof -
  obtain h where "hs = replicate (length hs) h"
    using assms only_one_header [of Bypass hs Shim] only_one_header [of Shim hs Bypass]
    by auto
  then have "preprocess P hs = (if length hs = 0 then tu0 else preprocess P [h])"
    using preprocess_replicate [of P "length hs" h] by simp
  then show "def_count ''close_range'' (preprocess P hs) \<le> 1"
    and "def_count ''sem_clockwait'' (preprocess P hs) \<le> 1"
    by (auto simp: single_header_counts) (simp_all add: def_count_def tu0_def)
qed

lemma header_strategies:
  "strategies ''close_range'' (preprocess P [Bypass]) = [AsMacro]"
  "strategies ''sem_clockwait'' (preprocess P [Bypass]) = [AsMacro]"
  "strategies ''close_range'' (preprocess P [Shim]) = [AsFunction]"
  "strategies ''sem_clockwait'' (preprocess P [Shim]) = [AsFunction]"
  by (simp_all add: strategies_def bypass_state shim_state)

text \<open>
  What including both does. With \<open>bypass_fix.h\<close> first, the two function definitions
  of \<open>sovereign_shim.h\<close> are garbled by the macros of the same names and define
  nothing. With \<open>sovereign_shim.h\<close> first, the macros defined afterwards shadow the
  functions: a later call of \<open>close_range\<close> is the stub.
\<close>

lemma bypass_then_shim_garbles:
  "conflicts (preprocess P [Bypass, Shim]) = [''sem_clockwait'', ''close_range'']
   \<and> funs (preprocess P [Bypass, Shim]) = []"
proof -
  have "preprocess P [Bypass, Shim] = include_hdr P Shim (preprocess P [Bypass])"
    by (simp add: preprocess_def)
  then show ?thesis
    by (cases "sys_close_range P")
       (simp_all add: bypass_state bypass_macros_def include_hdr_def sovereign_shim_h_def
        shim_body_def define_macro_def sys_macros_at define_fun_def clobbered_def
        shim_sem_clockwait_def shim_close_range_def)
qed


lemma shim_then_bypass_macros:
  "map_of (macros (preprocess P [Shim, Bypass])) ''close_range'' =
     Some (FunMacro [''a'', ''b'', ''c''] always_fail)
   \<and> map_of (macros (preprocess P [Shim, Bypass])) ''ENOSYS'' =
     Some (ObjMacro (IntLit (enosys P)))
   \<and> conflicts (preprocess P [Shim, Bypass]) = []
   \<and> map fst (funs (preprocess P [Shim, Bypass])) = [''close_range'', ''sem_clockwait'']"
proof -
  have "preprocess P [Shim, Bypass] = include_hdr P Bypass (preprocess P [Shim])"
    by (simp add: preprocess_def)
  then show ?thesis
    by (simp add: shim_state shim_macros_def shim_funs_def include_hdr_def bypass_fix_h_def
        bypass_body_def ffi_body_def define_macro_def sys_macros_def)
qed

lemma shim_then_bypass_shadows:
  "run P [Shim, Bypass] env (Call ''close_range'' [a, b, c]) s =
     Inr (VInt (- 1), s\<lparr>errno := to_cint (enosys P)\<rparr>)"
  using shim_then_bypass_macros [of P]
  by (simp add: run_def always_fail_def)

lemma inc_done_iff:
  "inc_done h st \<longleftrightarrow> (\<forall>l \<in> set (lines_of h). \<exists>g. guard_of l = Some g \<and> is_defined g st)"
  by (auto simp: inc_done_def list_all_iff split: option.splits)

lemma inc_done_skip: "inc_done h st \<Longrightarrow> include_hdr P h st = st"
  unfolding include_hdr_def inc_done_iff by (rule all_guarded_skip)

lemma inc_done_after: "inc_done h (include_hdr P h st)"
  unfolding include_hdr_def inc_done_iff using headers_guarded by (rule guards_defined_after)

lemma inc_done_mono: "inc_done h st \<Longrightarrow> inc_done h (include_hdr P h' st)"
  unfolding inc_done_iff by (blast intro: is_defined_include_mono)

lemma include_all_removeAll:
  "inc_done h st \<Longrightarrow> include_all P hs st = include_all P (removeAll h hs) st"
proof (induction hs arbitrary: st)
  case Nil
  then show ?case by simp
next
  case (Cons x xs)
  show ?case
  proof (cases "x = h")
    case True
    then show ?thesis using Cons by (simp add: inc_done_skip)
  next
    case False
    have "inc_done h (include_hdr P x st)" using Cons.prems by (rule inc_done_mono)
    then show ?thesis using False Cons.IH by simp
  qed
qed

lemma both_included_state:
  assumes "Bypass \<in> set hs" and "Shim \<in> set hs"
  shows "preprocess P hs = preprocess P [Bypass, Shim]
       \<or> preprocess P hs = preprocess P [Shim, Bypass]"
proof -
  obtain h hs' where hs: "hs = h # hs'" using assms(1) by (cases hs) auto
  obtain h' where h': "h' \<noteq> h" "h' \<in> set hs"
    using assms by (cases h) auto
  let ?st = "include_hdr P h tu0"
  have rest: "h' \<in> set (removeAll h hs')" using h' hs by auto
  have "h \<notin> set (removeAll h hs')" by simp
  then have "removeAll h hs' = replicate (length (removeAll h hs')) h'"
    using h'(1) [symmetric] by (rule only_one_header)
  moreover have "length (removeAll h hs') \<noteq> 0"
  proof
    assume "length (removeAll h hs') = 0"
    then have "set (removeAll h hs') = {}" by simp
    with rest show False by auto
  qed
  ultimately obtain k where k: "removeAll h hs' = replicate (Suc k) h'"
    by (cases "length (removeAll h hs')") auto
  have "preprocess P hs = include_all P hs' ?st" by (simp add: hs preprocess_def)
  also have "\<dots> = include_all P (removeAll h hs') ?st"
    using inc_done_after by (rule include_all_removeAll)
  also have "\<dots> = include_hdr P h' ?st" unfolding k by (rule include_all_replicate)
  also have "\<dots> = preprocess P [h, h']" by (simp add: preprocess_def)
  finally show ?thesis using hdr_neq [OF h'(1)] by auto
qed


lemma both_included_garbled_or_shadowed:
  assumes "Bypass \<in> set hs" and "Shim \<in> set hs"
  shows "(conflicts (preprocess P hs) = [''sem_clockwait'', ''close_range'']
          \<and> funs (preprocess P hs) = [])
       \<or> (conflicts (preprocess P hs) = []
          \<and> map fst (funs (preprocess P hs)) = [''close_range'', ''sem_clockwait'']
          \<and> map_of (macros (preprocess P hs)) ''close_range'' =
              Some (FunMacro [''a'', ''b'', ''c''] always_fail))"
  using both_included_state [OF assms, of P] bypass_then_shim_garbles [of P]
    shim_then_bypass_macros [of P]
  by auto

subsection \<open>Two call sites on the example platform\<close>

text \<open>
  With descriptors 3 and 5 open, \<open>close_range(3, 10, 0)\<close> after \<open>sovereign_shim.h\<close>
  closes both and returns 0; after \<open>bypass_fix.h\<close> it returns -1 with \<open>errno\<close> set to
  \<open>ENOSYS\<close> and both descriptors still open.
\<close>

lemma demo_close_3_10:
  "lib_call demo ''syscall'' [VInt 436, VInt 3, VInt 10, VInt 0] s0 =
     Inr (VInt 0, \<lparr>errno = 0, world = [],
        trace = [(''syscall'', [VInt 436, VInt 3, VInt 10, VInt 0])]\<rparr>)"
  by (simp add: lib_call_def demo_def demo_prim_def lib_ret_def s0_def to_clong_64_small)

lemma scenario_shim_close_range:
  "run demo [Shim] Map.empty (Call ''close_range'' [IntLit 3, IntLit 10, IntLit 0]) s0 =
     Inr (VInt 0, \<lparr>errno = 0, world = [],
        trace = [(''syscall'', [VInt 436, VInt 3, VInt 10, VInt 0])]\<rparr>)"
  by (simp add: shim_close_range_run demo_syscall_nr to_cuint_def demo_close_3_10 to_cint_def)

lemma scenario_bypass_close_range:
  "run demo [Bypass] Map.empty (Call ''close_range'' [IntLit 3, IntLit 10, IntLit 0]) s0 =
     Inr (VInt (- 1), \<lparr>errno = 38, world = [3, 5], trace = []\<rparr>)"
  by (simp add: run_bypass bypass_macros_def always_fail_def demo_def to_cint_def s0_def)

section \<open>The always-fail substitutions\<close>

text \<open>
  C1. After \<open>bypass_fix.h\<close>, a call of \<open>close_range\<close>, \<open>copy_file_range\<close>,
  \<open>preadv2\<close>, \<open>pwritev2\<close>, \<open>getloadavg\<close> or \<open>fexecve\<close> returns -1 and sets
  \<open>errno\<close> to \<open>ENOSYS\<close> (the platform's value, as the \<open>int\<close> that \<open>errno\<close> holds),
  whatever the argument expressions are: they are neither expanded nor evaluated, and
  nothing else of the state changes.
\<close>

theorem always_fail_returns_minus_one_ENOSYS:
  "run P [Bypass] env (Call ''close_range'' [a, b, c]) s =
     Inr (VInt (- 1), s\<lparr>errno := to_cint (enosys P)\<rparr>)
   \<and> run P [Bypass] env (Call ''copy_file_range'' [a, b, c, d, e, f]) s =
     Inr (VInt (- 1), s\<lparr>errno := to_cint (enosys P)\<rparr>)
   \<and> run P [Bypass] env (Call ''preadv2'' [a, b, c, d, e]) s =
     Inr (VInt (- 1), s\<lparr>errno := to_cint (enosys P)\<rparr>)
   \<and> run P [Bypass] env (Call ''pwritev2'' [a, b, c, d, e]) s =
     Inr (VInt (- 1), s\<lparr>errno := to_cint (enosys P)\<rparr>)
   \<and> run P [Bypass] env (Call ''getloadavg'' [a, b]) s =
     Inr (VInt (- 1), s\<lparr>errno := to_cint (enosys P)\<rparr>)
   \<and> run P [Bypass] env (Call ''fexecve'' [a, b, c]) s =
     Inr (VInt (- 1), s\<lparr>errno := to_cint (enosys P)\<rparr>)"
  by (simp add: run_bypass bypass_macros_def always_fail_def)

text \<open>
  C6. Each always-fail substitution of \<open>bypass_fix.h\<close>, called with as many arguments
  as it has parameters, always fails: it returns -1, leaves the world and the log of
  library calls as they were (nothing is done in part), and gives the same outcome for
  any other arguments, any other variables in scope and any earlier value of \<open>errno\<close>,
  so also when it is called again.
\<close>

theorem always_fail_is_deterministic_and_atomic:
  assumes "(f, n) \<in> set always_fail_stubs"
    and "length args = n" and "length args' = n"
  shows "\<exists>s'. run P [Bypass] env (Call f args) s = Inr (VInt (- 1), s')
            \<and> world s' = world s \<and> trace s' = trace s
            \<and> run P [Bypass] env' (Call f args') (s\<lparr>errno := x\<rparr>) = Inr (VInt (- 1), s')
            \<and> run P [Bypass] env' (Call f args') s' = Inr (VInt (- 1), s')"
  using assms by (simp add: always_fail_run)

theorem always_fail_is_deterministic_and_atomic_witness:
  "(''close_range'', 3) \<in> set always_fail_stubs
   \<and> run demo [Bypass] Map.empty (Call ''close_range'' [IntLit 3, IntLit 10, IntLit 0]) s0 =
       Inr (VInt (- 1), s0\<lparr>errno := 38\<rparr>)
   \<and> run demo [Bypass] Map.empty (Call ''close_range'' [Call ''pause'' [], NULL, Ident ''x''])
        (s0\<lparr>errno := 38\<rparr>) = Inr (VInt (- 1), s0\<lparr>errno := 38\<rparr>)"
proof -
  have m: "(''close_range'', 3) \<in> set always_fail_stubs"
    by (simp add: always_fail_stubs_eq)
  obtain s' where
    1: "run demo [Bypass] Map.empty (Call ''close_range'' [IntLit 3, IntLit 10, IntLit 0]) s0 =
          Inr (VInt (- 1), s')"
    and 2: "run demo [Bypass] Map.empty (Call ''close_range'' [Call ''pause'' [], NULL, Ident ''x''])
          s' = Inr (VInt (- 1), s')"
    using always_fail_is_deterministic_and_atomic [OF m, of "[IntLit 3, IntLit 10, IntLit 0]" "[Call ''pause'' [], NULL, Ident ''x'']"
        demo Map.empty s0 Map.empty]
    by auto
  have 3: "run demo [Bypass] Map.empty (Call ''close_range'' [IntLit 3, IntLit 10, IntLit 0]) s0 =
       Inr (VInt (- 1), s0\<lparr>errno := 38\<rparr>)"
    by (simp add: run_bypass bypass_macros_def always_fail_def demo_def to_cint_def)
  from 1 3 have "s' = s0\<lparr>errno := 38\<rparr>" by simp
  with 1 2 m show ?thesis by simp
qed

section \<open>The password-database substitutions\<close>

text \<open>
  C4. After \<open>bypass_fix.h\<close>, \<open>setpwent()\<close> and \<open>endpwent()\<close> yield no value and
  \<open>getpwent()\<close> yields the null pointer; none of them changes the state, \<open>errno\<close>
  included, and none can fail. So any sequence of such calls, in any order, leaves the
  state as it was and every \<open>getpwent()\<close> in it yields the null pointer.
\<close>

theorem password_stubs_are_stateless:
  "run P [Bypass] env (Call ''setpwent'' []) s = Inr (VVoid, s)
   \<and> run P [Bypass] env (Call ''endpwent'' []) s = Inr (VVoid, s)
   \<and> run P [Bypass] env (Call ''getpwent'' []) s = Inr (VPtr 0, s)
   \<and> (set es \<subseteq> {Call ''setpwent'' [], Call ''endpwent'' [], Call ''getpwent'' []} \<longrightarrow>
        run_seq P [Bypass] env es s = Inr (map pw_result es, s))"
  by (intro conjI impI pw_setpwent pw_endpwent pw_getpwent pw_run_seq)

theorem password_stubs_are_stateless_witness:
  "run_seq demo [Bypass] Map.empty
     [Call ''getpwent'' [], Call ''endpwent'' [], Call ''getpwent'' [], Call ''setpwent'' [],
      Call ''setpwent'' [], Call ''getpwent'' []] s0 =
   Inr ([VPtr 0, VVoid, VPtr 0, VVoid, VVoid, VPtr 0], s0)"
  using password_stubs_are_stateless [of demo Map.empty s0
     "[Call ''getpwent'' [], Call ''endpwent'' [], Call ''getpwent'' [], Call ''setpwent'' [],
      Call ''setpwent'' [], Call ''getpwent'' []]"]
  by (simp add: pw_result_def)

section \<open>The semaphore wait\<close>

text \<open>
  C2. In both headers \<open>sem_clockwait(sem, clock_id, t)\<close> is \<open>sem_timedwait(sem, t)\<close>
  for every \<open>clock_id\<close>: the same outcome (return value, \<open>errno\<close>, world, and a call
  that does not return), with the clock never reaching the library.
\<close>

theorem sem_clockwait_is_sem_timedwait:
  "run P [Bypass] env (Call ''sem_clockwait'' [Lit sem, Lit clock_id, Lit t]) s =
     run P [Bypass] env (Call ''sem_timedwait'' [Lit sem, Lit t]) s
   \<and> run P [Shim] env
         (Call ''sem_clockwait'' [Lit (VPtr semp), Lit (VInt clk), Lit (VPtr tp)]) s =
       run P [Shim] env (Call ''sem_timedwait'' [Lit (VPtr semp), Lit (VPtr tp)]) s"
  by (simp add: bypass_sem_clockwait_run bypass_sem_timedwait_run
      shim_sem_clockwait_run shim_sem_timedwait_run)

text \<open>
  C7. The macro of \<open>bypass_fix.h\<close> and the inline function of \<open>sovereign_shim.h\<close>
  agree: for every semaphore pointer, clock identifier and timeout pointer the two give
  the same outcome.
\<close>

theorem sem_clockwait_macro_equals_function:
  "run P [Bypass] env
       (Call ''sem_clockwait'' [Lit (VPtr semp), Lit (VInt clk), Lit (VPtr tp)]) s =
     run P [Shim] env
       (Call ''sem_clockwait'' [Lit (VPtr semp), Lit (VInt clk), Lit (VPtr tp)]) s"
  by (simp add: bypass_sem_clockwait_run shim_sem_clockwait_run)

section \<open>The functional \<open>close_range\<close>\<close>

text \<open>
  C3. After \<open>sovereign_shim.h\<close>, \<open>close_range(first, last, flags)\<close> has exactly the
  outcome of \<open>syscall(SYS_close_range, first, last, flags)\<close> on the arguments as the
  \<open>unsigned int\<close> parameters receive them: the same return value, the same \<open>errno\<close>
  and world, and no return where the raw call does not return. This holds for every
  \<open>first\<close>, \<open>last\<close> and \<open>flags\<close>, \<open>first > last\<close> included, whenever the raw call's
  return value is a value of type \<open>int\<close>, as 0 and -1 are (the function returns
  \<open>int\<close>, the raw call \<open>long\<close>).
\<close>

theorem shim_close_range_is_raw_syscall:
  "fits_int (run P [Shim] env
      (Call ''syscall'' [Ident ''SYS_close_range'', IntLit (to_cuint first),
         IntLit (to_cuint lst), IntLit (to_cuint flags)]) s)
   \<Longrightarrow> run P [Shim] env (Call ''close_range'' [IntLit first, IntLit lst, IntLit flags]) s =
       run P [Shim] env
         (Call ''syscall'' [Ident ''SYS_close_range'', IntLit (to_cuint first),
            IntLit (to_cuint lst), IntLit (to_cuint flags)]) s"
  by (auto simp: shim_close_range_run shim_raw_run to_cint_id fits_int_def
      split: sum.splits val.splits)

theorem shim_close_range_is_raw_syscall_witness:
  "run demo [Shim] Map.empty (Call ''close_range'' [IntLit 10, IntLit 3, IntLit 0]) s0 =
     Inr (VInt (- 1), \<lparr>errno = 22, world = [3, 5],
        trace = [(''syscall'', [VInt 436, VInt 10, VInt 3, VInt 0])]\<rparr>)"
proof -
  have raw: "run demo [Shim] Map.empty
      (Call ''syscall'' [Ident ''SYS_close_range'', IntLit (to_cuint 10),
         IntLit (to_cuint 3), IntLit (to_cuint 0)]) s0 =
     Inr (VInt (- 1), \<lparr>errno = 22, world = [3, 5],
        trace = [(''syscall'', [VInt 436, VInt 10, VInt 3, VInt 0])]\<rparr>)"
    by (simp add: shim_raw_run demo_syscall_nr to_cuint_def demo_raw_inverted_range)
  have fits: "fits_int (run demo [Shim] Map.empty
      (Call ''syscall'' [Ident ''SYS_close_range'', IntLit (to_cuint 10),
         IntLit (to_cuint 3), IntLit (to_cuint 0)]) s0)"
    by (simp add: raw fits_int_def is_cint_def)
  show ?thesis
    using shim_close_range_is_raw_syscall [OF fits] raw by simp
qed

text \<open>
  C5. After \<open>sovereign_shim.h\<close>, \<open>SYS_close_range\<close> is the platform's value where one
  of the included system headers defines it and 436 otherwise; the header's own
  \<open>#define\<close> is active exactly when no included system header defines the name; and
  the number in the body of \<open>close_range\<close> is that value.
\<close>

theorem SYS_close_range_fallback_436:
  "map_of (macros (preprocess P [Shim])) ''SYS_close_range'' =
     Some (ObjMacro (IntLit (case sys_close_range P of None \<Rightarrow> 436 | Some n \<Rightarrow> n)))
   \<and> ((''SYS_close_range'', AsMacro) \<in> set (defs (preprocess P [Shim])) \<longleftrightarrow>
        \<not> platform_defines P (includes_of_lines sovereign_shim_h) ''SYS_close_range'')
   \<and> map_option (body \<circ> fst) (find_fun ''close_range'' (funs (preprocess P [Shim]))) =
       Some (Call ''syscall''
         [IntLit (case sys_close_range P of None \<Rightarrow> 436 | Some n \<Rightarrow> n),
          Ident ''first'', Ident ''last'', Ident ''flags''])"
proof -
  have "map_of (macros (preprocess P [Shim])) ''SYS_close_range'' =
     Some (ObjMacro (IntLit (case sys_close_range P of None \<Rightarrow> 436 | Some n \<Rightarrow> n)))"
    by (simp add: shim_state shim_macros_def shim_syscall_nr_def)
  moreover have "(''SYS_close_range'', AsMacro) \<in> set (defs (preprocess P [Shim])) \<longleftrightarrow>
        \<not> platform_defines P (includes_of_lines sovereign_shim_h) ''SYS_close_range''"
    by (simp add: shim_platform_defines shim_state)
  moreover have
    "map_option (body \<circ> fst) (find_fun ''close_range'' (funs (preprocess P [Shim]))) =
       Some (Call ''syscall''
         [IntLit (case sys_close_range P of None \<Rightarrow> 436 | Some n \<Rightarrow> n),
          Ident ''first'', Ident ''last'', Ident ''flags''])"
    by (simp add: shim_state shim_funs_def shim_syscall_nr_def)
  ultimately show ?thesis by simp
qed

section \<open>Argument expressions\<close>

text \<open>
  C9. In \<open>bypass_fix.h\<close> no replacement list of an always-fail macro names any of the
  macro's parameters, and the replacement list of \<open>sem_clockwait\<close> does not name
  \<open>clock\<close>. So a call of an always-fail macro makes no library call whatever its
  arguments are (in \<open>close_range(f(), g(), h())\<close> none of \<open>f\<close>, \<open>g\<close>, \<open>h\<close> is
  called), and \<open>sem_clockwait(s, c, t)\<close> is \<open>sem_timedwait(s, t)\<close> for any expressions,
  so \<open>c\<close> is never evaluated. The inline functions of \<open>sovereign_shim.h\<close> evaluate
  each argument exactly once: when the three arguments, evaluated one after the other,
  give three values and a state, the call is the call on those values in that state.
\<close>

theorem arguments_dropped_by_macros_evaluated_once_by_functions:
  "map (\<lambda>(f, n). map_option unused_params (map_of (macros (preprocess P [Bypass])) f))
       always_fail_stubs =
     [Some [''a'', ''b'', ''c''], Some [''a'', ''b'', ''c'', ''d'', ''e'', ''f''],
      Some [''a'', ''b'', ''c'', ''d'', ''e''], Some [''a'', ''b'', ''c'', ''d'', ''e''],
      Some [''a'', ''b''], Some [''a'', ''b'', ''c'']]
   \<and> map_option unused_params (map_of (macros (preprocess P [Bypass])) ''sem_clockwait'') =
       Some [''clock'']
   \<and> ((f, n) \<in> set always_fail_stubs \<and> length args = n \<longrightarrow>
        (\<exists>s'. run P [Bypass] env (Call f args) s = Inr (VInt (- 1), s')
              \<and> trace s' = trace s))
   \<and> run P [Bypass] env (Call ''sem_clockwait'' [a, c, b]) s =
       run P [Bypass] env (Call ''sem_timedwait'' [a, b]) s
   \<and> (run_seq P [Shim] env [a, b, c] s = Inr ([v1, v2, v3], s3) \<longrightarrow>
        run P [Shim] env (Call ''close_range'' [a, b, c]) s =
        run P [Shim] env (Call ''close_range'' [Lit v1, Lit v2, Lit v3]) s3)
   \<and> (run_seq P [Shim] env [a, b, c] s = Inr ([v1, v2, v3], s3) \<longrightarrow>
        run P [Shim] env (Call ''sem_clockwait'' [a, b, c]) s =
        run P [Shim] env (Call ''sem_clockwait'' [Lit v1, Lit v2, Lit v3]) s3)"
proof -
  have stub: "(f, n) \<in> set always_fail_stubs \<and> length args = n \<longrightarrow>
        (\<exists>s'. run P [Bypass] env (Call f args) s = Inr (VInt (- 1), s')
              \<and> trace s' = trace s)"
    by (auto simp: always_fail_run)
  have cr: "run_seq P [Shim] env [a, b, c] s = Inr ([v1, v2, v3], s3) \<longrightarrow>
        run P [Shim] env (Call ''close_range'' [a, b, c]) s =
        run P [Shim] env (Call ''close_range'' [Lit v1, Lit v2, Lit v3]) s3"
    by (auto intro: shim_function_args_once)
  have sc: "run_seq P [Shim] env [a, b, c] s = Inr ([v1, v2, v3], s3) \<longrightarrow>
        run P [Shim] env (Call ''sem_clockwait'' [a, b, c]) s =
        run P [Shim] env (Call ''sem_clockwait'' [Lit v1, Lit v2, Lit v3]) s3"
    by (auto intro: shim_function_args_once)
  show ?thesis
    using stub cr sc
    by (simp only: bypass_unused_params bypass_sem_clockwait_unused
        bypass_sem_clockwait_expr simp_thms)
qed

theorem arguments_dropped_by_macros_evaluated_once_by_functions_witness:
  "run demo [Bypass] Map.empty
       (Call ''close_range'' [Call ''f'' [], Call ''g'' [], Call ''h'' []]) s0 =
     Inr (VInt (- 1), \<lparr>errno = 38, world = [3, 5], trace = []\<rparr>)
   \<and> run demo [Shim] Map.empty
       (Call ''close_range'' [Call ''f'' [], Call ''g'' [], Call ''h'' []]) s0 =
     Inr (VInt 0, \<lparr>errno = 0, world = [3, 5],
        trace = [(''f'', []), (''g'', []), (''h'', []),
                 (''syscall'', [VInt 436, VInt 7, VInt 7, VInt 7])]\<rparr>)
   \<and> run demo [Shim] Map.empty
       (Call ''sem_clockwait'' [Lit (VPtr 1), Call ''tick'' [], Lit (VPtr 2)]) s0 =
     Inr (VInt (- 1), \<lparr>errno = 110, world = [3, 5],
        trace = [(''tick'', []), (''sem_timedwait'', [VPtr 1, VPtr 2])]\<rparr>)"
proof -
  note inst = arguments_dropped_by_macros_evaluated_once_by_functions [where P = demo and env = Map.empty and s = s0]
  have m: "(''close_range'', 3) \<in> set always_fail_stubs
      \<and> length [Call ''f'' [], Call ''g'' [], Call ''h'' []] = 3"
    by (simp add: always_fail_stubs_eq)
  have "\<exists>s'. run demo [Bypass] Map.empty
       (Call ''close_range'' [Call ''f'' [], Call ''g'' [], Call ''h'' []]) s0 =
       Inr (VInt (- 1), s') \<and> trace s' = trace s0"
    using inst [where f = "''close_range''" and n = 3
        and args = "[Call ''f'' [], Call ''g'' [], Call ''h'' []]"] m
    by blast
  then have 1: "run demo [Bypass] Map.empty
       (Call ''close_range'' [Call ''f'' [], Call ''g'' [], Call ''h'' []]) s0 =
     Inr (VInt (- 1), \<lparr>errno = 38, world = [3, 5], trace = []\<rparr>)"
    by (simp add: run_bypass bypass_macros_def always_fail_def demo_def to_cint_def s0_def)
  have seq: "run_seq demo [Shim] Map.empty [Call ''f'' [], Call ''g'' [], Call ''h'' []] s0 =
      Inr ([VInt 7, VInt 7, VInt 7],
           s0\<lparr>trace := [(''f'', []), (''g'', []), (''h'', [])]\<rparr>)"
    by (simp add: run_shim_lib demo_lib_other s0_def)
  have "run demo [Shim] Map.empty
       (Call ''close_range'' [Call ''f'' [], Call ''g'' [], Call ''h'' []]) s0 =
     run demo [Shim] Map.empty (Call ''close_range'' [IntLit 7, IntLit 7, IntLit 7])
       (s0\<lparr>trace := [(''f'', []), (''g'', []), (''h'', [])]\<rparr>)"
    using inst [where a = "Call ''f'' []" and b = "Call ''g'' []" and c = "Call ''h'' []"] seq
    by blast
  then have 2: "run demo [Shim] Map.empty
       (Call ''close_range'' [Call ''f'' [], Call ''g'' [], Call ''h'' []]) s0 =
     Inr (VInt 0, \<lparr>errno = 0, world = [3, 5],
        trace = [(''f'', []), (''g'', []), (''h'', []),
                 (''syscall'', [VInt 436, VInt 7, VInt 7, VInt 7])]\<rparr>)"
    by (simp add: shim_close_range_run demo_syscall_nr to_cuint_def demo_lib_close_7
        to_cint_def s0_def)
  have seq': "run_seq demo [Shim] Map.empty [Lit (VPtr 1), Call ''tick'' [], Lit (VPtr 2)] s0 =
      Inr ([VPtr 1, VInt 7, VPtr 2], s0\<lparr>trace := [(''tick'', [])]\<rparr>)"
    by (simp add: run_shim_lib run_shim_lit demo_lib_other s0_def)
  have "run demo [Shim] Map.empty
       (Call ''sem_clockwait'' [Lit (VPtr 1), Call ''tick'' [], Lit (VPtr 2)]) s0 =
     run demo [Shim] Map.empty (Call ''sem_clockwait'' [Lit (VPtr 1), IntLit 7, Lit (VPtr 2)])
       (s0\<lparr>trace := [(''tick'', [])]\<rparr>)"
    using inst [where a = "Lit (VPtr 1)" and b = "Call ''tick'' []" and c = "Lit (VPtr 2)"] seq'
    by blast
  then have 3: "run demo [Shim] Map.empty
       (Call ''sem_clockwait'' [Lit (VPtr 1), Call ''tick'' [], Lit (VPtr 2)]) s0 =
     Inr (VInt (- 1), \<lparr>errno = 110, world = [3, 5],
        trace = [(''tick'', []), (''sem_timedwait'', [VPtr 1, VPtr 2])]\<rparr>)"
    by (simp add: shim_sem_clockwait_run demo_lib_sem_timedwait s0_def)
  from 1 2 3 show ?thesis by simp
qed

section \<open>Inclusion\<close>

text \<open>
  C10. Every top-level line of either header is a block under an include guard
  (\<open>REECH_BYPASS_H\<close> and \<open>FFI_BYPASS\<close> in \<open>bypass_fix.h\<close>, \<open>SOVEREIGN_SHIM_H\<close> in
  \<open>sovereign_shim.h\<close>). Including a header any number of times, from any state of the
  translation unit, leaves exactly the state that including it once leaves: the same
  macros, functions, logged definitions and conflicts; in a translation unit that
  includes nothing else there is no conflict at all.
\<close>

theorem include_guards_make_inclusion_idempotent:
  "map guard_of bypass_fix_h = [Some ''REECH_BYPASS_H'', Some ''FFI_BYPASS'']
   \<and> map guard_of sovereign_shim_h = [Some ''SOVEREIGN_SHIM_H'']
   \<and> include_all P (replicate (Suc n) h) st = include_hdr P h st
   \<and> preprocess P (replicate (Suc n) h) = preprocess P [h]
   \<and> conflicts (preprocess P (replicate (Suc n) h)) = []"
proof -
  have "preprocess P (replicate (Suc n) h) = preprocess P [h]"
    unfolding preprocess_def by (simp only: include_all_replicate) simp
  then show ?thesis
    by (simp only: bypass_guards shim_guards include_all_replicate single_no_conflict)
qed

text \<open>
  C8. \<open>bypass_fix.h\<close> defines \<open>sem_clockwait\<close> and \<open>close_range\<close> as macros,
  \<open>sovereign_shim.h\<close> defines both as functions. In a translation unit that includes
  the two headers any number of times in any order, each of the two names is defined at
  most once only if the unit does not include both headers; and if it does not include
  both, each is defined at most once. A unit that includes both ends in one of two
  ways: the function definitions are garbled by the macros and define nothing
  (\<open>bypass_fix.h\<close> came first), or the functions are defined and then shadowed by
  the macros (\<open>sovereign_shim.h\<close> came first).
\<close>

theorem headers_conflict_unless_only_one_included:
  "strategies ''close_range'' (preprocess P [Bypass]) = [AsMacro]
   \<and> strategies ''sem_clockwait'' (preprocess P [Bypass]) = [AsMacro]
   \<and> strategies ''close_range'' (preprocess P [Shim]) = [AsFunction]
   \<and> strategies ''sem_clockwait'' (preprocess P [Shim]) = [AsFunction]
   \<and> (def_count ''sem_clockwait'' (preprocess P hs) \<le> 1
        \<and> def_count ''close_range'' (preprocess P hs) \<le> 1
      \<longrightarrow> \<not> (Bypass \<in> set hs \<and> Shim \<in> set hs))
   \<and> (\<not> (Bypass \<in> set hs \<and> Shim \<in> set hs)
      \<longrightarrow> def_count ''sem_clockwait'' (preprocess P hs) \<le> 1
          \<and> def_count ''close_range'' (preprocess P hs) \<le> 1)
   \<and> (Bypass \<in> set hs \<and> Shim \<in> set hs
      \<longrightarrow> (conflicts (preprocess P hs) = [''sem_clockwait'', ''close_range'']
           \<and> funs (preprocess P hs) = [])
          \<or> (conflicts (preprocess P hs) = []
           \<and> map fst (funs (preprocess P hs)) = [''close_range'', ''sem_clockwait'']
           \<and> map_of (macros (preprocess P hs)) ''close_range'' =
               Some (FunMacro [''a'', ''b'', ''c''] always_fail)))"
proof -
  have fwd: "def_count ''sem_clockwait'' (preprocess P hs) \<le> 1
        \<and> def_count ''close_range'' (preprocess P hs) \<le> 1
      \<longrightarrow> \<not> (Bypass \<in> set hs \<and> Shim \<in> set hs)"
  proof (intro impI notI)
    assume small: "def_count ''sem_clockwait'' (preprocess P hs) \<le> 1
        \<and> def_count ''close_range'' (preprocess P hs) \<le> 1"
    assume "Bypass \<in> set hs \<and> Shim \<in> set hs"
    then have "2 \<le> def_count ''close_range'' (preprocess P hs)"
      by (simp add: both_included_defined_twice)
    with small show False by simp
  qed
  have bwd: "\<not> (Bypass \<in> set hs \<and> Shim \<in> set hs)
      \<longrightarrow> def_count ''sem_clockwait'' (preprocess P hs) \<le> 1
          \<and> def_count ''close_range'' (preprocess P hs) \<le> 1"
    using not_both_defined_at_most_once [of hs P] by simp
  have both: "Bypass \<in> set hs \<and> Shim \<in> set hs
      \<longrightarrow> (conflicts (preprocess P hs) = [''sem_clockwait'', ''close_range'']
           \<and> funs (preprocess P hs) = [])
          \<or> (conflicts (preprocess P hs) = []
           \<and> map fst (funs (preprocess P hs)) = [''close_range'', ''sem_clockwait'']
           \<and> map_of (macros (preprocess P hs)) ''close_range'' =
               Some (FunMacro [''a'', ''b'', ''c''] always_fail))"
    using both_included_garbled_or_shadowed [of hs P] by blast
  show ?thesis
    using fwd bwd both header_strategies [of P] by (intro conjI)
qed

theorem headers_conflict_unless_only_one_included_witness:
  "def_count ''sem_clockwait'' (preprocess demo [Bypass, Bypass]) \<le> 1
   \<and> def_count ''close_range'' (preprocess demo [Bypass, Bypass]) \<le> 1
   \<and> \<not> (def_count ''sem_clockwait'' (preprocess demo [Shim, Bypass]) \<le> 1
        \<and> def_count ''close_range'' (preprocess demo [Shim, Bypass]) \<le> 1)"
proof -
  have 1: "\<not> (Bypass \<in> set [Bypass, Bypass] \<and> Shim \<in> set [Bypass, Bypass])"
    by simp
  have 2: "\<not> \<not> (Bypass \<in> set [Shim, Bypass] \<and> Shim \<in> set [Shim, Bypass])"
    by simp
  show ?thesis
    using headers_conflict_unless_only_one_included [of demo "[Bypass, Bypass]"] headers_conflict_unless_only_one_included [of demo "[Shim, Bypass]"] 1 2
    by blast
qed

end
